theory Spec2Isabelle
  imports Complex_Main
begin

section \<open>Python values used by both programs\<close>

text \<open>
  A \<open>bytes\<close> object is a list of 8-bit characters; a Python \<open>str\<close> is a list of
  Unicode code points. \<open>ascii\<close> turns an ASCII literal of the source into a \<open>str\<close>.
\<close>

type_synonym bytes = "char list"
type_synonym pystr = "nat list"

definition ascii :: "string \<Rightarrow> pystr" where
  "ascii s = map of_char s"

definition LF :: char where
  "LF = CHR 0x0A"

definition CR :: char where
  "CR = CHR 0x0D"

datatype exn =
  AttributeError | TypeError | ValueError | OverflowError
  | JSONDecodeError | RecursionError | OSError | UnicodeEncodeError

subsection \<open>\<open>bytes.decode("utf-8", errors="replace")\<close>\<close>

text \<open>
  The decoder of the Python runtime: a well-formed sequence gives its code point; an
  invalid start byte, or the longest prefix of a sequence that is cut short by a byte
  that cannot continue it or by the end of the data, gives one U+FFFD. \<open>utf8_step b0 bs\<close>
  decodes at the byte \<open>b0\<close> followed by \<open>bs\<close> and returns the code point with the
  number of bytes it stands for.
\<close>

definition REPLACEMENT :: nat where
  "REPLACEMENT = 0xFFFD"

definition is_cont :: "nat \<Rightarrow> bool" where
  "is_cont b = (0x80 \<le> b \<and> b < 0xC0)"

definition seq2 :: "nat \<Rightarrow> nat list \<Rightarrow> nat \<times> nat" where
  "seq2 b0 bs =
     (case bs of
        [] \<Rightarrow> (REPLACEMENT, 1)
      | b1 # _ \<Rightarrow>
          if is_cont b1 then ((b0 - 0xC0) * 64 + (b1 - 0x80), 2)
          else (REPLACEMENT, 1))"

definition seq3 :: "nat \<Rightarrow> nat list \<Rightarrow> nat \<times> nat" where
  "seq3 b0 bs =
     (case bs of
        [] \<Rightarrow> (REPLACEMENT, 1)
      | b1 # bs1 \<Rightarrow>
          if \<not> is_cont b1 \<or> (b0 = 0xE0 \<and> b1 < 0xA0) \<or> (b0 = 0xED \<and> 0xA0 \<le> b1)
          then (REPLACEMENT, 1)
          else (case bs1 of
                  [] \<Rightarrow> (REPLACEMENT, 2)
                | b2 # _ \<Rightarrow>
                    if is_cont b2
                    then ((b0 - 0xE0) * 4096 + (b1 - 0x80) * 64 + (b2 - 0x80), 3)
                    else (REPLACEMENT, 2)))"

definition seq4 :: "nat \<Rightarrow> nat list \<Rightarrow> nat \<times> nat" where
  "seq4 b0 bs =
     (case bs of
        [] \<Rightarrow> (REPLACEMENT, 1)
      | b1 # bs1 \<Rightarrow>
          if \<not> is_cont b1 \<or> (b0 = 0xF0 \<and> b1 < 0x90) \<or> (b0 = 0xF4 \<and> 0x90 \<le> b1)
          then (REPLACEMENT, 1)
          else (case bs1 of
                  [] \<Rightarrow> (REPLACEMENT, 2)
                | b2 # bs2 \<Rightarrow>
                    if \<not> is_cont b2 then (REPLACEMENT, 2)
                    else (case bs2 of
                            [] \<Rightarrow> (REPLACEMENT, 3)
                          | b3 # _ \<Rightarrow>
                              if is_cont b3
                              then ((b0 - 0xF0) * 262144 + (b1 - 0x80) * 4096
                                     + (b2 - 0x80) * 64 + (b3 - 0x80), 4)
                              else (REPLACEMENT, 3))))"

definition utf8_step :: "nat \<Rightarrow> nat list \<Rightarrow> nat \<times> nat" where
  "utf8_step b0 bs =
     (if b0 < 0x80 then (b0, 1)
      else if b0 < 0xC2 then (REPLACEMENT, 1)
      else if b0 < 0xE0 then seq2 b0 bs
      else if b0 < 0xF0 then seq3 b0 bs
      else if b0 < 0xF5 then seq4 b0 bs
      else (REPLACEMENT, 1))"

lemma seq2_bounds: "0 < snd (seq2 b bs) \<and> snd (seq2 b bs) \<le> Suc (length bs)"
  by (simp add: seq2_def split: list.split)

lemma seq3_bounds: "0 < snd (seq3 b bs) \<and> snd (seq3 b bs) \<le> Suc (length bs)"
  by (simp add: seq3_def split: list.split)

lemma seq4_bounds: "0 < snd (seq4 b bs) \<and> snd (seq4 b bs) \<le> Suc (length bs)"
  by (simp add: seq4_def split: list.split)

lemma utf8_step_bounds:
  "0 < snd (utf8_step b bs) \<and> snd (utf8_step b bs) \<le> Suc (length bs)"
  using seq2_bounds [of b bs] seq3_bounds [of b bs] seq4_bounds [of b bs]
  by (simp add: utf8_step_def)

function utf8_decode :: "nat list \<Rightarrow> pystr" where
  "utf8_decode [] = []"
| "utf8_decode (b # bs) =
     (let (cp, n) = utf8_step b bs in cp # utf8_decode (drop n (b # bs)))"
  by pat_completeness auto
termination
proof (relation "measure length")
  fix b :: nat and bs x cp n
  assume "x = utf8_step b bs" and "(cp, n) = x"
  then have "n = snd (utf8_step b bs)"
    by (metis snd_conv)
  then have "0 < n"
    using utf8_step_bounds [of b bs] by simp
  then show "(drop n (b # bs), b # bs) \<in> measure length"
    by simp
qed simp

definition decode :: "bytes \<Rightarrow> pystr" where
  "decode bs = utf8_decode (map of_char bs)"

subsection \<open>\<open>str.strip()\<close>\<close>

text \<open>The code points for which \<open>str.isspace\<close> holds; \<open>strip\<close> removes them at both ends.\<close>

definition isspace :: "nat \<Rightarrow> bool" where
  "isspace c =
     ((0x09 \<le> c \<and> c \<le> 0x0D) \<or> (0x1C \<le> c \<and> c \<le> 0x20) \<or> c = 0x85 \<or> c = 0xA0
      \<or> c = 0x1680 \<or> (0x2000 \<le> c \<and> c \<le> 0x200A) \<or> c = 0x2028 \<or> c = 0x2029
      \<or> c = 0x202F \<or> c = 0x205F \<or> c = 0x3000)"

definition strip :: "pystr \<Rightarrow> pystr" where
  "strip s = rev (dropWhile isspace (rev (dropWhile isspace s)))"

subsection \<open>Decoded JSON values\<close>

text \<open>
  What \<open>json.loads\<close> returns. A float is its exact value (a finite double is a real
  number), the negative zero, an infinity or a NaN: \<open>json.loads\<close> accepts \<open>NaN\<close> and
  \<open>Infinity\<close>. A \<open>dict\<close> is the list of its items in insertion order, the keys
  distinct.
\<close>

datatype pyfloat = Finite real | NegZero | PosInf | NegInf | NaN

datatype json =
  JNull | JBool bool | JInt int | JFloat pyfloat | JStr pystr
  | JList "json list" | JDict "(pystr \<times> json) list"

text \<open>Truth value of an object, as \<open>or\<close> and \<open>if v\<close> test it.\<close>

fun truthy :: "json \<Rightarrow> bool" where
  "truthy JNull = False"
| "truthy (JBool b) = b"
| "truthy (JInt n) = (n \<noteq> 0)"
| "truthy (JFloat f) = (f \<noteq> Finite 0 \<and> f \<noteq> NegZero)"
| "truthy (JStr s) = (s \<noteq> [])"
| "truthy (JList xs) = (xs \<noteq> [])"
| "truthy (JDict d) = (d \<noteq> [])"

definition py_or :: "json \<Rightarrow> json \<Rightarrow> json" where
  "py_or a b = (if truthy a then a else b)"

text \<open>
  \<open>obj.get(key, default)\<close>: only a \<open>dict\<close> has the method; on any other object the
  attribute lookup raises \<open>AttributeError\<close>.
\<close>

definition dict_get :: "(pystr \<times> json) list \<Rightarrow> pystr \<Rightarrow> json \<Rightarrow> json" where
  "dict_get d k dflt = (case map_of d k of None \<Rightarrow> dflt | Some v \<Rightarrow> v)"

fun py_get :: "json \<Rightarrow> pystr \<Rightarrow> json \<Rightarrow> exn + json" where
  "py_get (JDict d) k dflt = Inr (dict_get d k dflt)"
| "py_get _ k dflt = Inl AttributeError"

definition bind_exn :: "exn + 'a \<Rightarrow> ('a \<Rightarrow> exn + 'b) \<Rightarrow> exn + 'b" where
  "bind_exn m f = (case m of Inl e \<Rightarrow> Inl e | Inr x \<Rightarrow> f x)"

subsection \<open>\<open>float(val)\<close> and the format \<open>.3f\<close>\<close>

fun bit_length :: "nat \<Rightarrow> nat" where
  "bit_length n = (if n = 0 then 0 else Suc (bit_length (n div 2)))"

declare bit_length.simps [simp del]

text \<open>The double nearest to a natural number, ties to the even mantissa (53 bits).\<close>

definition round_to_double :: "nat \<Rightarrow> nat" where
  "round_to_double a =
     (if a < 2 ^ 53 then a
      else (let e = bit_length a - 53;
                q = a div 2 ^ e;
                r = a mod 2 ^ e;
                half = 2 ^ (e - 1)
            in (if half < r \<or> (r = half \<and> odd q) then q + 1 else q) * 2 ^ e))"

text \<open>
  \<open>float(val)\<close> on a decoded JSON value. \<open>None\<close>, a list and a dict raise
  \<open>TypeError\<close>; an int beyond the range of a double raises \<open>OverflowError\<close>; a string
  is parsed as a float literal, \<open>ValueError\<close> when it is none. The parser of float
  literals belongs to the Python runtime and is the parameter \<open>str2f\<close>.
\<close>

fun py_float :: "(pystr \<Rightarrow> pyfloat option) \<Rightarrow> json \<Rightarrow> exn + pyfloat" where
  "py_float str2f JNull = Inl TypeError"
| "py_float str2f (JBool b) = Inr (Finite (if b then 1 else 0))"
| "py_float str2f (JInt n) =
     (let a = round_to_double (nat \<bar>n\<bar>)
      in if 2 ^ 1024 \<le> a then Inl OverflowError
         else Inr (Finite (if n < 0 then - of_nat a else of_nat a)))"
| "py_float str2f (JFloat f) = Inr f"
| "py_float str2f (JStr s) =
     (case str2f s of None \<Rightarrow> Inl ValueError | Some f \<Rightarrow> Inr f)"
| "py_float str2f (JList xs) = Inl TypeError"
| "py_float str2f (JDict d) = Inl TypeError"

text \<open>\<open>str(n)\<close> for a natural number.\<close>

fun dec_digits :: "nat \<Rightarrow> pystr" where
  "dec_digits n = (if n < 10 then [48 + n] else dec_digits (n div 10) @ [48 + n mod 10])"

declare dec_digits.simps [simp del]

definition round_half_even :: "real \<Rightarrow> int" where
  "round_half_even q =
     (let f = \<lfloor>q\<rfloor>; d = q - of_int f
      in if d < 1 / 2 then f
         else if 1 / 2 < d then f + 1
         else if even f then f else f + 1)"

text \<open>
  \<open>format(f, ".<places>f")\<close>: the exact value rounded to \<open>places\<close> decimals, ties to
  even, with the sign of the float (also on a result that rounds to zero).
\<close>

definition fixed_digits :: "nat \<Rightarrow> real \<Rightarrow> pystr" where
  "fixed_digits places q =
     (let n = nat (round_half_even (q * 10 ^ places));
          whole = dec_digits (n div 10 ^ places);
          frac = dec_digits (n mod 10 ^ places)
      in if places = 0 then whole
         else whole @ ascii ''.'' @ replicate (places - length frac) 48 @ frac)"

fun format_f :: "nat \<Rightarrow> pyfloat \<Rightarrow> pystr" where
  "format_f places (Finite q) =
     (if q < 0 then ascii ''-'' @ fixed_digits places (- q) else fixed_digits places q)"
| "format_f places NegZero = ascii ''-'' @ fixed_digits places 0"
| "format_f places PosInf = ascii ''inf''"
| "format_f places NegInf = ascii ''-inf''"
| "format_f places NaN = ascii ''nan''"

section \<open>Receiver: frame reassembly (\<open>recv_lines\<close>)\<close>

text \<open>
  The socket is modelled by what its successive \<open>recv(4096)\<close> calls meet: \<open>Idle t\<close> is a
  stretch of \<open>t\<close> milliseconds in which nothing arrives (the call keeps blocking, the
  socket has no timeout set), \<open>Data c\<close> is a chunk handed to the caller, \<open>Recv_error\<close> is an
  \<open>OSError\<close> raised by the call. An empty chunk, and the end of the list, is the peer's
  close: \<open>recv\<close> returns \<open>b""\<close>. (A chunk has at most 4096 bytes; nothing below depends
  on that bound.)
\<close>

datatype recv_event = Idle nat | Data bytes | Recv_error

text \<open>\<open>buf.find(b"\n")\<close>, with \<open>None\<close> for \<open>-1\<close>.\<close>

fun find_byte :: "char \<Rightarrow> bytes \<Rightarrow> nat option" where
  "find_byte c [] = None"
| "find_byte c (b # bs) =
     (if b = c then Some 0 else map_option Suc (find_byte c bs))"

lemma find_byte_less: "find_byte c bs = Some n \<Longrightarrow> n < length bs"
  by (induction bs arbitrary: n) (auto split: if_splits)

text \<open>
  The inner \<open>while True\<close> of \<open>recv_lines\<close>: cut every newline-terminated line off the
  front of the buffer and yield it decoded and stripped; return the lines with what is
  left of the buffer. (Decoding with \<open>errors="replace"\<close> cannot raise, so the
  \<open>except Exception: continue\<close> around the \<open>yield\<close> has no case here.)
\<close>

function extract_lines :: "bytes \<Rightarrow> pystr list \<times> bytes" where
  "extract_lines buf =
     (case find_byte LF buf of
        None \<Rightarrow> ([], buf)
      | Some nl \<Rightarrow>
          (let line = take nl buf;
               (ys, rest) = extract_lines (drop (nl + 1) buf)
           in (strip (decode line) # ys, rest)))"
  by pat_completeness auto
termination
  by (relation "measure length") (auto dest: find_byte_less)

text \<open>
  The outer loop, from a buffer: the lines yielded, and the exception that ended the
  generator if one did (\<open>None\<close>: the peer closed and the generator returned).
\<close>

fun recv_loop :: "bytes \<Rightarrow> recv_event list \<Rightarrow> pystr list \<times> exn option" where
  "recv_loop buf [] = ([], None)"
| "recv_loop buf (Idle t # sock) = recv_loop buf sock"
| "recv_loop buf (Recv_error # sock) = ([], Some OSError)"
| "recv_loop buf (Data chunk # sock) =
     (if chunk = [] then ([], None)
      else (let (ys, buf') = extract_lines (buf @ chunk);
                (zs, r) = recv_loop buf' sock
            in (ys @ zs, r)))"

definition recv_lines :: "recv_event list \<Rightarrow> pystr list \<times> exn option" where
  "recv_lines sock = recv_loop [] sock"

text \<open>The bytes a socket delivers before the stream ends, and how it ends.\<close>

fun received :: "recv_event list \<Rightarrow> bytes" where
  "received [] = []"
| "received (Idle t # sock) = received sock"
| "received (Recv_error # sock) = []"
| "received (Data chunk # sock) = (if chunk = [] then [] else chunk @ received sock)"

fun stream_end :: "recv_event list \<Rightarrow> exn option" where
  "stream_end [] = None"
| "stream_end (Idle t # sock) = stream_end sock"
| "stream_end (Recv_error # sock) = Some OSError"
| "stream_end (Data chunk # sock) = (if chunk = [] then None else stream_end sock)"

section \<open>Receiver: rendering an input message (\<open>build_line\<close>)\<close>

text \<open>
  \<open>fmt_float(val, places=3)\<close>: every exception of the conversion is caught and gives
  \<open>"na"\<close>.
\<close>

definition fmt_float :: "(pystr \<Rightarrow> pyfloat option) \<Rightarrow> json \<Rightarrow> nat \<Rightarrow> pystr" where
  "fmt_float str2f val places =
     (case py_float str2f val of
        Inr f \<Rightarrow> format_f places f
      | Inl e \<Rightarrow> ascii ''na'')"

text \<open>\<open>sep.join(xs)\<close>.\<close>

fun py_join :: "pystr \<Rightarrow> pystr list \<Rightarrow> pystr" where
  "py_join sep [] = []"
| "py_join sep [x] = x"
| "py_join sep (x # y # ys) = x @ sep @ py_join sep (y # ys)"

definition pressed_buttons :: "json \<Rightarrow> pystr" where
  "pressed_buttons btns =
     (case btns of
        JDict items \<Rightarrow>
          (let s = py_join (ascii '','') (map fst (filter (\<lambda>(k, v). truthy v) items))
           in if s = [] then ascii ''-'' else s)
      | _ \<Rightarrow> ascii ''-'')"

text \<open>
  An f-string is the list of its pieces: \<open>Lit\<close> is literal text, \<open>Fmt v\<close> the text
  that formatting the object \<open>v\<close> gives (for a \<open>str\<close>, the string itself).
\<close>

datatype frag = Lit pystr | Fmt json

definition build_line :: "(pystr \<Rightarrow> pyfloat option) \<Rightarrow> json \<Rightarrow> exn + frag list" where
  "build_line str2f msg =
     bind_exn (py_get msg (ascii ''type'') (JStr (ascii ''?''))) (\<lambda>mtype.
     bind_exn (py_get msg (ascii ''ts'') (JStr [])) (\<lambda>ts.
     bind_exn (py_get msg (ascii ''seq'') (JStr [])) (\<lambda>sq.
     bind_exn (py_get msg (ascii ''axes'') (JDict [])) (\<lambda>a.
     bind_exn (py_get msg (ascii ''dpad'') (JDict [])) (\<lambda>d.
     let axes = py_or a (JDict []); dpad = py_or d (JDict []) in
     bind_exn (py_get axes (ascii ''lx'') JNull) (\<lambda>lx.
     bind_exn (py_get axes (ascii ''ly'') JNull) (\<lambda>ly.
     bind_exn (py_get axes (ascii ''rx'') JNull) (\<lambda>rx.
     bind_exn (py_get axes (ascii ''ry'') JNull) (\<lambda>ry.
     bind_exn (py_get axes (ascii ''lt'') JNull) (\<lambda>lt.
     bind_exn (py_get axes (ascii ''rt'') JNull) (\<lambda>rt.
     bind_exn (py_get dpad (ascii ''x'') (JInt 0)) (\<lambda>dx.
     bind_exn (py_get dpad (ascii ''y'') (JInt 0)) (\<lambda>dy.
     bind_exn (py_get msg (ascii ''buttons'') (JDict [])) (\<lambda>b.
     let btns = pressed_buttons b in
     Inr [Lit (ascii ''[''), Fmt mtype, Lit (ascii ''] seq=''), Fmt sq,
          Lit (ascii '' ts=''), Fmt ts, Lit (ascii ''  ''),
          Lit (ascii ''axes(lx=''), Fmt (JStr (fmt_float str2f lx 3)),
          Lit (ascii '' ly=''), Fmt (JStr (fmt_float str2f ly 3)),
          Lit (ascii ''  rx=''), Fmt (JStr (fmt_float str2f rx 3)),
          Lit (ascii '' ry=''), Fmt (JStr (fmt_float str2f ry 3)),
          Lit (ascii ''  lt=''), Fmt (JStr (fmt_float str2f lt 3)),
          Lit (ascii '' rt=''), Fmt (JStr (fmt_float str2f rt 3)), Lit (ascii '')  ''),
          Lit (ascii ''dpad(x=''), Fmt dx, Lit (ascii '' y=''), Fmt dy, Lit (ascii '')  ''),
          Lit (ascii ''pressed=[''), Fmt (JStr btns), Lit (ascii '']'')]))))))))))))))"

section \<open>Receiver: the per-connection loop (\<open>handle_client\<close>)\<close>

text \<open>
  What the loop does that can be seen from outside: a line printed, and a
  \<open>conn.sendall\<close> of the serialised object followed by a newline, with its outcome.
  The outcomes of the successive \<open>sendall\<close> calls are given by the connection
  (\<open>Send_fails e\<close>: the call raises an exception with the text \<open>e\<close>); a call beyond the
  end of the given list succeeds.
\<close>

datatype send_outcome = Send_ok | Send_fails pystr

datatype event = Print "frag list" | Send_all json send_outcome

record connection =
  incoming :: "recv_event list"
  sendall_outcomes :: "send_outcome list"

text \<open>
  \<open>print(text)\<close> writes to the standard output, a UTF-8 text stream with the error
  handler \<open>strict\<close>, as the Python runtime opens it. The encoder refuses the code points
  U+D800 to U+DFFF, which a \<open>str\<close> decoded by \<open>json.loads\<close> holds after an escape like
  \<open>"\ud800"\<close>: then \<open>print\<close> raises \<open>UnicodeEncodeError\<close> and writes nothing. A \<open>str\<close>
  is formatted as itself; a number, \<open>None\<close> or a boolean as ASCII text; a list or a dict
  through \<open>repr\<close>, which escapes these code points.
\<close>

definition is_surrogate :: "nat \<Rightarrow> bool" where
  "is_surrogate c = (0xD800 \<le> c \<and> c \<le> 0xDFFF)"

fun unencodable :: "frag \<Rightarrow> bool" where
  "unencodable (Lit s) = list_ex is_surrogate s"
| "unencodable (Fmt (JStr s)) = list_ex is_surrogate s"
| "unencodable (Fmt v) = False"

text \<open>
  \<open>print\<close> of an f-string as a statement of the loop body: the line printed, or the
  exception that leaves the loop.
\<close>

definition print_line ::
  "frag list \<Rightarrow> send_outcome list \<Rightarrow> event list \<times> send_outcome list \<times> exn option" where
  "print_line l outs =
     (if list_ex unencodable l then ([], outs, Some UnicodeEncodeError)
      else ([Print l], outs, None))"

text \<open>
  The lines that \<open>handle_client\<close> prints about the connection and about a bad line.
  The peer's address is the one \<open>accept\<close> returns for an IPv4 socket, the dotted text of
  the address and the port: the two lines about the connection are always printed.
\<close>

definition peer_of :: "pystr \<times> nat \<Rightarrow> pystr" where
  "peer_of addr = fst addr @ ascii '':'' @ dec_digits (snd addr)"

definition connected_line :: "pystr \<Rightarrow> event" where
  "connected_line peer = Print [Lit (ascii ''Client connected: ''), Fmt (JStr peer)]"

definition disconnected_line :: "pystr \<Rightarrow> event" where
  "disconnected_line peer = Print [Lit (ascii ''Client disconnected: ''), Fmt (JStr peer)]"

definition bad_json_text :: "pystr \<Rightarrow> pystr \<Rightarrow> frag list" where
  "bad_json_text peer line =
     [Lit (ascii ''(warn) bad json from ''), Fmt (JStr peer), Lit (ascii '': ''),
      Fmt (JStr (take 120 line)), Lit (ascii ''...'')]"

definition bad_json_warning :: "pystr \<Rightarrow> pystr \<Rightarrow> event" where
  "bad_json_warning peer line = Print (bad_json_text peer line)"

text \<open>
  The \<open>try: ... conn.sendall(...) except Exception as e: print(...)\<close> of the ack; \<open>e\<close> is
  the error of the operating system, whose text is printed.
\<close>

definition send_ack_line :: "json \<Rightarrow> send_outcome list \<Rightarrow> event list \<times> send_outcome list" where
  "send_ack_line sq outs =
     (let ack = JDict [(ascii ''type'', JStr (ascii ''ack'')), (ascii ''seq'', sq)];
          r = (case outs of [] \<Rightarrow> Send_ok | r # _ \<Rightarrow> r)
      in (case r of
            Send_ok \<Rightarrow> [Send_all ack Send_ok]
          | Send_fails e \<Rightarrow>
              [Send_all ack (Send_fails e),
               Print [Lit (ascii ''(warn) failed to send ack: ''), Fmt (JStr e)]],
          tl outs))"

text \<open>
  The body of the \<open>for line in recv_lines(conn)\<close> loop for one line. \<open>loads\<close> is
  \<open>json.loads\<close>, a function of the Python runtime: \<open>Inr\<close> the decoded value, \<open>Inl\<close> the
  exception it raises. The result is the events of this line, the outcomes left for later
  \<open>sendall\<close> calls, and the exception that leaves the loop, if any. Only
  \<open>JSONDecodeError\<close> is caught; any other exception of \<open>json.loads\<close> (a
  \<open>RecursionError\<close> on deeply nested text) leaves the loop. \<open>msg.get("type")\<close> raises
  \<open>AttributeError\<close> unless \<open>msg\<close> is a dict; past it, \<open>msg\<close> is the dict \<open>d\<close>. No
  \<open>print\<close> of the body is inside a \<open>try\<close> that catches its exception: when
  \<open>print(build_line(msg))\<close> raises, the ack is not sent.
\<close>

definition handle_line ::
  "(pystr \<Rightarrow> exn + json) \<Rightarrow> (pystr \<Rightarrow> pyfloat option) \<Rightarrow> pystr \<Rightarrow> bool \<Rightarrow> bool \<Rightarrow>
   pystr \<Rightarrow> send_outcome list \<Rightarrow> event list \<times> send_outcome list \<times> exn option" where
  "handle_line loads str2f peer show_heartbeats send_ack line outs =
     (if line = [] then ([], outs, None)
      else
        case loads line of
          Inl JSONDecodeError \<Rightarrow> print_line (bad_json_text peer line) outs
        | Inl e \<Rightarrow> ([], outs, Some e)
        | Inr (JDict d) \<Rightarrow>
            (let mtype = dict_get d (ascii ''type'') JNull in
             if mtype = JStr (ascii ''input'') then
               (case build_line str2f (JDict d) of
                  Inl e \<Rightarrow> ([], outs, Some e)
                | Inr l \<Rightarrow>
                    if list_ex unencodable l then ([], outs, Some UnicodeEncodeError)
                    else if send_ack then
                      (let (evs, outs') = send_ack_line (dict_get d (ascii ''seq'') JNull) outs
                       in (Print l # evs, outs', None))
                    else ([Print l], outs, None))
             else if mtype = JStr (ascii ''heartbeat'') then
               (if show_heartbeats then
                  (let ts = dict_get d (ascii ''ts'') (JStr []);
                       sq = dict_get d (ascii ''seq'') (JStr [])
                   in print_line [Lit (ascii ''[heartbeat] seq=''), Fmt sq,
                                  Lit (ascii '' ts=''), Fmt ts] outs)
                else ([], outs, None))
             else print_line [Lit (ascii ''[unknown] ''), Fmt (JStr line)] outs)
        | Inr _ \<Rightarrow> ([], outs, Some AttributeError))"

fun serve_lines ::
  "(pystr \<Rightarrow> exn + json) \<Rightarrow> (pystr \<Rightarrow> pyfloat option) \<Rightarrow> pystr \<Rightarrow> bool \<Rightarrow> bool \<Rightarrow>
   pystr list \<Rightarrow> send_outcome list \<Rightarrow> event list \<times> exn option" where
  "serve_lines loads str2f peer show_heartbeats send_ack [] outs = ([], None)"
| "serve_lines loads str2f peer show_heartbeats send_ack (line # rest) outs =
     (case handle_line loads str2f peer show_heartbeats send_ack line outs of
        (evs, outs', Some e) \<Rightarrow> (evs, Some e)
      | (evs, outs', None) \<Rightarrow>
          (let (evs', r) = serve_lines loads str2f peer show_heartbeats send_ack rest outs'
           in (evs @ evs', r)))"

text \<open>
  \<open>handle_client(conn, addr, show_heartbeats, send_ack)\<close>: the events in order, and the
  exception that leaves the function (\<open>None\<close>: it returns, after the peer has closed).
  An exception leaves through \<open>with conn\<close>, which closes the socket, and skips the last
  \<open>print\<close>. The lines that \<open>recv_lines\<close> yields before a failing \<open>recv\<close> are handled
  before its exception arrives.
\<close>

definition handle_client ::
  "(pystr \<Rightarrow> exn + json) \<Rightarrow> (pystr \<Rightarrow> pyfloat option) \<Rightarrow> connection \<Rightarrow> pystr \<times> nat \<Rightarrow>
   bool \<Rightarrow> bool \<Rightarrow> event list \<times> exn option" where
  "handle_client loads str2f conn addr show_heartbeats send_ack =
     (let peer = peer_of addr;
          (lines, recv_exn) = recv_lines (incoming conn);
          (evs, r) = serve_lines loads str2f peer show_heartbeats send_ack lines
                       (sendall_outcomes conn)
      in case r of
           Some e \<Rightarrow> (connected_line peer # evs, Some e)
         | None \<Rightarrow>
             (case recv_exn of
                Some e \<Rightarrow> (connected_line peer # evs, Some e)
              | None \<Rightarrow> (connected_line peer # evs @ [disconnected_line peer], None)))"

section \<open>Sender: the control client and the main loop\<close>

unbundle bit_operations_syntax

definition POLL_HZ :: real where
  "POLL_HZ = 60"

definition HEARTBEAT_MS :: real where
  "HEARTBEAT_MS = 500"

text \<open>
  \<open>ControlClient\<close>. The field \<open>sock\<close> holds an open socket or \<open>None\<close>; the loop
  only tests it, so it is a truth value here.
\<close>

record control_client =
  host :: pystr
  port :: nat
  timeout :: real
  sock :: bool
  seq :: int

definition ControlClient :: "pystr \<Rightarrow> nat \<Rightarrow> control_client" where
  "ControlClient h p = \<lparr>host = h, port = p, timeout = 2, sock = False, seq = 0\<rparr>"

text \<open>
  \<open>connect\<close>: whether \<open>socket.create_connection\<close> succeeds is the environment's
  (\<open>ok\<close>); its \<open>OSError\<close> is caught and leaves \<open>sock\<close> at \<open>None\<close>.
\<close>

definition connect :: "bool \<Rightarrow> control_client \<Rightarrow> control_client" where
  "connect ok c = c\<lparr>sock := ok\<rparr>"

definition close :: "control_client \<Rightarrow> control_client" where
  "close c = c\<lparr>sock := False\<rparr>"

definition next_seq :: "control_client \<Rightarrow> int \<times> control_client" where
  "next_seq c = (let n = (seq c + 1) AND 0xFFFFFFFF in (n, c\<lparr>seq := n\<rparr>))"

text \<open>
  \<open>send_json_line(obj)\<close>: nothing without a socket; otherwise one \<open>sendall\<close> of the
  serialised object and a newline, whose \<open>OSError\<close> closes the client. (The console
  messages of the sender are not part of the events.)
\<close>

definition send_json_line ::
  "json \<Rightarrow> send_outcome \<Rightarrow> control_client \<Rightarrow> event list \<times> control_client" where
  "send_json_line obj outcome c =
     (if \<not> sock c then ([], c)
      else case outcome of
             Send_ok \<Rightarrow> ([Send_all obj Send_ok], c)
           | Send_fails e \<Rightarrow> ([Send_all obj (Send_fails e)], close c))"

text \<open>
  What one poll of the joystick reads: the UTC time as an ISO-8601 string, the value
  \<open>_axis(js, idx, to01=...)\<close> returns for each axis (its floating-point arithmetic is
  not modelled), the buttons and the first hat.
\<close>

record joystick =
  utcnow :: pystr
  axis :: "nat \<Rightarrow> pyfloat"
  numbuttons :: nat
  button :: "nat \<Rightarrow> int"
  numhats :: nat
  hat0 :: "int \<times> int"

definition btn_names :: "string list" where
  "btn_names = [''a'', ''b'', ''x'', ''y'', ''lb'', ''rb'', ''back'', ''start'', ''xbox'',
                ''ls'', ''rs'']"

definition read_sample :: "joystick \<Rightarrow> (pystr \<times> json) list" where
  "read_sample js =
     [(ascii ''type'', JStr (ascii ''input'')),
      (ascii ''ts'', JStr (utcnow js)),
      (ascii ''seq'', JInt 0),
      (ascii ''axes'', JDict
         [(ascii ''lx'', JFloat (axis js 0)), (ascii ''ly'', JFloat (axis js 1)),
          (ascii ''rx'', JFloat (axis js 2)), (ascii ''ry'', JFloat (axis js 3)),
          (ascii ''lt'', JFloat (axis js 4)), (ascii ''rt'', JFloat (axis js 5))]),
      (ascii ''buttons'', JDict
         (map (\<lambda>(i, name). (ascii name, JInt (button js i)))
            (filter (\<lambda>(i, name). i < numbuttons js) (enumerate 0 btn_names)))),
      (ascii ''dpad'', JDict
         (if 0 < numhats js
          then [(ascii ''x'', JInt (fst (hat0 js))), (ascii ''y'', JInt (snd (hat0 js)))]
          else [(ascii ''x'', JInt 0), (ascii ''y'', JInt 0)])),
      (ascii ''meta'', JDict [(ascii ''battery'', JNull), (ascii ''connected'', JBool True)])]"

text \<open>\<open>d[k] = v\<close>: an existing key keeps its place, a new one goes last.\<close>

fun dict_set :: "(pystr \<times> json) list \<Rightarrow> pystr \<Rightarrow> json \<Rightarrow> (pystr \<times> json) list" where
  "dict_set [] k v = [(k, v)]"
| "dict_set ((k', v') # d) k v =
     (if k' = k then (k, v) # d else (k', v') # dict_set d k v)"

definition heartbeat_message :: "pystr \<Rightarrow> int \<Rightarrow> json" where
  "heartbeat_message ts sq =
     JDict [(ascii ''type'', JStr (ascii ''heartbeat'')), (ascii ''ts'', JStr ts),
            (ascii ''seq'', JInt sq)]"

text \<open>
  One iteration of \<open>while True\<close> in \<open>run\<close>. The environment gives the joystick reading,
  the value of \<open>time.perf_counter()\<close> (seconds, as a real number), the UTC time a
  heartbeat would carry, and the outcome a \<open>sendall\<close> would have.
\<close>

record tick =
  js :: joystick
  now :: real
  hb_utcnow :: pystr
  outcome :: send_outcome

record sender =
  control :: control_client
  last_send :: real
  last_any :: real

definition loop_body :: "bool \<Rightarrow> tick \<Rightarrow> sender \<Rightarrow> event list \<times> sender" where
  "loop_body enable_control t s =
     (let sample = read_sample (js t) in
      if enable_control \<and> sock (control s) \<and> now t - last_send s \<ge> 1 / POLL_HZ then
        (let (n, c) = next_seq (control s);
             sample' = dict_set sample (ascii ''seq'') (JInt n);
             (evs, c') = send_json_line (JDict sample') (outcome t) c
         in (evs, s\<lparr>control := c', last_send := now t, last_any := now t\<rparr>))
      else if enable_control \<and> sock (control s)
              \<and> (now t - last_any s) * 1000 \<ge> HEARTBEAT_MS then
        (let (n, c) = next_seq (control s);
             hb = heartbeat_message (hb_utcnow t) n;
             (evs, c') = send_json_line hb (outcome t) c
         in (evs, s\<lparr>control := c', last_any := now t\<rparr>))
      else ([], s))"

text \<open>
  The loop runs until it is interrupted: \<open>run_loop\<close> is its run over the iterations
  that happen before that.
\<close>

fun run_loop :: "bool \<Rightarrow> tick list \<Rightarrow> sender \<Rightarrow> event list \<times> sender" where
  "run_loop enable_control [] s = ([], s)"
| "run_loop enable_control (t # ts) s =
     (let (evs, s') = loop_body enable_control t s;
          (evs', s'') = run_loop enable_control ts s'
      in (evs @ evs', s''))"

text \<open>
  \<open>run\<close> up to the interrupt: the client is created, connected once when control is
  enabled (\<open>connect_ok\<close>: whether that attempt succeeds), \<open>last_send\<close> starts at 0 and
  \<open>last_any\<close> at the clock's value \<open>t0\<close>. The result is the events and the state at the
  interrupt, before \<open>finally\<close> closes the client. (The live table, the video preview
  and the \<open>sleep\<close> between iterations act on none of this.)
\<close>

definition run ::
  "pystr \<Rightarrow> nat \<Rightarrow> bool \<Rightarrow> bool \<Rightarrow> real \<Rightarrow> tick list \<Rightarrow> event list \<times> sender" where
  "run h p enable_control connect_ok t0 ticks =
     (let c = ControlClient h p;
          c' = (if enable_control then connect connect_ok c else c)
      in run_loop enable_control ticks \<lparr>control = c', last_send = 0, last_any = t0\<rparr>)"

text \<open>The objects handed to \<open>sendall\<close>, in order, and the \<open>seq\<close> each carries.\<close>

fun sent_objects :: "event list \<Rightarrow> json list" where
  "sent_objects [] = []"
| "sent_objects (Send_all obj r # evs) = obj # sent_objects evs"
| "sent_objects (Print l # evs) = sent_objects evs"

definition seq_of :: "json \<Rightarrow> json" where
  "seq_of obj = (case obj of JDict d \<Rightarrow> dict_get d (ascii ''seq'') JNull | _ \<Rightarrow> JNull)"

definition type_of :: "json \<Rightarrow> json" where
  "type_of obj = (case obj of JDict d \<Rightarrow> dict_get d (ascii ''type'') JNull | _ \<Rightarrow> JNull)"

section \<open>Streams of lines\<close>

text \<open>The bytes of a list of lines, each ended by \<open>\n\<close>, or by \<open>\r\n\<close>.\<close>

definition lf_lines :: "bytes list \<Rightarrow> bytes" where
  "lf_lines ls = concat (map (\<lambda>l. l @ [LF]) ls)"

definition crlf_lines :: "bytes list \<Rightarrow> bytes" where
  "crlf_lines ls = concat (map (\<lambda>l. l @ [CR, LF]) ls)"

section \<open>Vocabulary of the statements\<close>

text \<open>A stretch of silence on the socket.\<close>

fun is_idle :: "recv_event \<Rightarrow> bool" where
  "is_idle (Idle t) = True"
| "is_idle _ = False"


text \<open>
  The two conditions of the loop body of \<open>run\<close>: the rate gate of the \<open>if\<close>, and
  the idle test of the \<open>else\<close> branch.
\<close>

definition rate_gate :: "bool \<Rightarrow> tick \<Rightarrow> sender \<Rightarrow> bool" where
  "rate_gate enable_control t s \<longleftrightarrow>
     enable_control \<and> sock (control s) \<and> now t - last_send s \<ge> 1 / POLL_HZ"

definition heartbeat_due :: "bool \<Rightarrow> tick \<Rightarrow> sender \<Rightarrow> bool" where
  "heartbeat_due enable_control t s \<longleftrightarrow>
     enable_control \<and> sock (control s) \<and> (now t - last_any s) * 1000 \<ge> HEARTBEAT_MS"


section \<open>Example messages and runs\<close>

text \<open>
  Lines a sender can put on the wire, with the value \<open>json.loads\<close> returns for each:
  an \<open>input\<close> message, a \<open>heartbeat\<close>, an \<open>input\<close> message whose \<open>axes\<close> is a number,
  and the message of the design document's example; a line of 1000 opening brackets,
  which is no JSON document and nests deeper than the parser's recursion limit; and an
  \<open>input\<close> message as \<open>json.loads\<close> decodes it from a line whose \<open>ts\<close> is the escape
  of a lone surrogate, \<open>"\ud800"\<close>. \<open>example_loads\<close> is \<open>json.loads\<close> on the lines the
  examples use: the first three lines decode to their values; on the line of brackets
  the parser raises \<open>RecursionError\<close>; the other lines of the examples (\<open>{bad\<close>, a blank
  line) are no JSON documents.
\<close>

definition line_input7 :: bytes where
  \<open>line_input7 = ''{"type":"input","seq":7}''\<close>

definition msg_input7 :: "(pystr \<times> json) list" where
  "msg_input7 = [(ascii ''type'', JStr (ascii ''input'')), (ascii ''seq'', JInt 7)]"

definition line_heartbeat8 :: bytes where
  \<open>line_heartbeat8 = ''{"type":"heartbeat","seq":8}''\<close>

definition msg_heartbeat8 :: "(pystr \<times> json) list" where
  "msg_heartbeat8 = [(ascii ''type'', JStr (ascii ''heartbeat'')), (ascii ''seq'', JInt 8)]"

definition line_bad_axes :: bytes where
  \<open>line_bad_axes = ''{"type":"input","seq":9,"axes":5}''\<close>

definition msg_bad_axes :: "(pystr \<times> json) list" where
  "msg_bad_axes =
     [(ascii ''type'', JStr (ascii ''input'')), (ascii ''seq'', JInt 9), (ascii ''axes'', JInt 5)]"

definition line_deep :: bytes where
  "line_deep = replicate 1000 (CHR ''['')"

definition msg_surrogate_ts :: "(pystr \<times> json) list" where
  "msg_surrogate_ts =
     [(ascii ''type'', JStr (ascii ''input'')), (ascii ''seq'', JInt 10),
      (ascii ''ts'', JStr [0xD800])]"

definition example_loads :: "pystr \<Rightarrow> exn + json" where
  "example_loads s =
     (if s = ascii line_input7 then Inr (JDict msg_input7)
      else if s = ascii line_heartbeat8 then Inr (JDict msg_heartbeat8)
      else if s = ascii line_bad_axes then Inr (JDict msg_bad_axes)
      else if s = ascii line_deep then Inl RecursionError
      else Inl JSONDecodeError)"

definition msg_spec_example :: "(pystr \<times> json) list" where
  "msg_spec_example =
     [(ascii ''type'', JStr (ascii ''input'')), (ascii ''seq'', JInt 7),
      (ascii ''ts'', JStr (ascii ''2024-01-01T00:00:00Z'')),
      (ascii ''axes'', JDict
         [(ascii ''lx'', JFloat (Finite (1 / 2))),
          (ascii ''ly'', JFloat (Finite (- (3602879701896397 / 18014398509481984)))),
          (ascii ''rx'', JInt 0), (ascii ''ry'', JInt 0), (ascii ''lt'', JInt 0),
          (ascii ''rt'', JFloat (Finite 1))]),
      (ascii ''buttons'', JDict [(ascii ''a'', JInt 1), (ascii ''b'', JInt 0)]),
      (ascii ''dpad'', JDict [(ascii ''x'', JInt 0), (ascii ''y'', JInt (- 1))]),
      (ascii ''meta'', JDict [])]"


text \<open>A joystick at rest, one iteration of the sender's loop, and a connected sender.\<close>

definition js0 :: joystick where
  "js0 = \<lparr>utcnow = ascii ''2024-01-01T00:00:00+00:00'', axis = (\<lambda>i. Finite 0),
          numbuttons = 0, button = (\<lambda>i. 0), numhats = 0, hat0 = (0, 0)\<rparr>"

definition example_tick :: "real \<Rightarrow> send_outcome \<Rightarrow> tick" where
  "example_tick clock r =
     \<lparr>js = js0, now = clock, hb_utcnow = ascii ''2024-01-01T00:00:01+00:00'', outcome = r\<rparr>"

definition example_sender :: "real \<Rightarrow> real \<Rightarrow> sender" where
  "example_sender ls la =
     \<lparr>control = (ControlClient (ascii ''192.168.1.2'') 55001)\<lparr>sock := True\<rparr>,
      last_send = ls, last_any = la\<rparr>"


section \<open>Properties of the frame reassembly\<close>

declare extract_lines.simps [simp del]

lemma find_byte_None_iff: "find_byte c bs = None \<longleftrightarrow> c \<notin> set bs"
  by (induction bs) auto

lemma find_byte_append:
  "find_byte c xs = Some n \<Longrightarrow> find_byte c (xs @ ys) = Some n"
  by (induction xs arbitrary: n) (auto split: if_splits)

lemma find_byte_line: "c \<notin> set l \<Longrightarrow> find_byte c (l @ c # ys) = Some (length l)"
  by (induction l) auto

lemma extract_lines_no_LF: "LF \<notin> set buf \<Longrightarrow> extract_lines buf = ([], buf)"
  by (simp add: extract_lines.simps [of buf] find_byte_None_iff [THEN iffD2])

lemma extract_lines_line:
  "LF \<notin> set l \<Longrightarrow>
   extract_lines (l @ LF # ys) =
     (strip (decode l) # fst (extract_lines ys), snd (extract_lines ys))"
  by (simp add: extract_lines.simps [of "l @ LF # ys"] find_byte_line split: prod.split)

lemma extract_lines_append:
  "extract_lines (xs @ ys) =
     (fst (extract_lines xs) @ fst (extract_lines (snd (extract_lines xs) @ ys)),
      snd (extract_lines (snd (extract_lines xs) @ ys)))"
proof (induction xs rule: extract_lines.induct)
  case (1 buf)
  show ?case
  proof (cases "find_byte LF buf")
    case None
    then show ?thesis
      by (simp add: extract_lines.simps [of buf])
  next
    case (Some nl)
    then have nl: "nl < length buf"
      by (rule find_byte_less)
    have app: "find_byte LF (buf @ ys) = Some nl"
      using Some by (rule find_byte_append)
    have ih: "extract_lines (drop (nl + 1) buf @ ys) =
        (fst (extract_lines (drop (nl + 1) buf))
           @ fst (extract_lines (snd (extract_lines (drop (nl + 1) buf)) @ ys)),
         snd (extract_lines (snd (extract_lines (drop (nl + 1) buf)) @ ys)))"
      using "1.IH" [OF Some refl] .
    show ?thesis
      using nl ih
      by (simp add: extract_lines.simps [of buf] extract_lines.simps [of "buf @ ys"]
          Some app split: prod.split)
  qed
qed

lemma extract_lines_frames:
  assumes "\<forall>l \<in> set ls. LF \<notin> set l"
  shows "extract_lines (concat (map (\<lambda>l. l @ [LF]) ls) @ tl_bytes) =
           (map (\<lambda>l. strip (decode l)) ls @ fst (extract_lines tl_bytes),
            snd (extract_lines tl_bytes))"
  using assms
  by (induction ls) (simp_all add: extract_lines_line)

lemma extract_lines_rest: "LF \<notin> set (snd (extract_lines buf))"
proof (induction buf rule: extract_lines.induct)
  case (1 buf)
  show ?case
  proof (cases "find_byte LF buf")
    case None
    then show ?thesis
      by (simp add: extract_lines.simps [of buf] find_byte_None_iff [symmetric])
  next
    case (Some nl)
    then show ?thesis
      using "1.IH" [OF Some refl]
      by (auto simp add: extract_lines.simps [of buf] split: prod.split)
  qed
qed

lemma recv_loop_received:
  "LF \<notin> set buf \<Longrightarrow>
   recv_loop buf stream = (fst (extract_lines (buf @ received stream)), stream_end stream)"
proof (induction buf stream rule: recv_loop.induct)
  case (4 buf chunk stream)
  show ?case
  proof (cases "chunk = []")
    case True
    with "4.prems" show ?thesis
      by (simp add: extract_lines_no_LF)
  next
    case False
    obtain ys buf' where e: "extract_lines (buf @ chunk) = (ys, buf')"
      by (cases "extract_lines (buf @ chunk)")
    have "LF \<notin> set buf'"
      using extract_lines_rest [of "buf @ chunk"] e by simp
    then have ih: "recv_loop buf' stream =
        (fst (extract_lines (buf' @ received stream)), stream_end stream)"
      using "4.IH" [OF False e [symmetric] refl] by simp
    have "extract_lines ((buf @ chunk) @ received stream) =
        (ys @ fst (extract_lines (buf' @ received stream)),
         snd (extract_lines (buf' @ received stream)))"
      using extract_lines_append [of "buf @ chunk" "received stream"] e by simp
    then show ?thesis
      using False e ih by simp
  qed
qed (simp_all add: extract_lines_no_LF)

lemma recv_lines_received:
  "recv_lines stream = (fst (extract_lines (received stream)), stream_end stream)"
  using recv_loop_received [of "[]" stream] by (simp add: recv_lines_def)

lemma received_chunks:
  "[] \<notin> set chunks \<Longrightarrow>
   received (map Data chunks) = concat chunks \<and> stream_end (map Data chunks) = None"
  by (induction chunks) auto

lemma extract_lines_Nil: "extract_lines [] = ([], [])"
  by (simp add: extract_lines.simps [of "[]"])

lemma seq2_append: "\<not> is_cont a \<Longrightarrow> seq2 b (bs @ a # ys) = seq2 b bs"
  by (cases bs) (simp_all add: seq2_def)

lemma seq3_append:
  assumes "\<not> is_cont a"
  shows "seq3 b (bs @ a # ys) = seq3 b bs"
proof (cases bs)
  case Nil
  then show ?thesis using assms by (simp add: seq3_def)
next
  case (Cons b1 bs1)
  then show ?thesis using assms by (cases bs1) (simp_all add: seq3_def)
qed

lemma seq4_append:
  assumes "\<not> is_cont a"
  shows "seq4 b (bs @ a # ys) = seq4 b bs"
proof (cases bs)
  case Nil
  then show ?thesis using assms by (simp add: seq4_def)
next
  case (Cons b1 bs1)
  note c1 = Cons
  show ?thesis
  proof (cases bs1)
    case Nil
    with c1 show ?thesis using assms by (simp add: seq4_def)
  next
    case (Cons b2 bs2)
    with c1 show ?thesis using assms by (cases bs2) (simp_all add: seq4_def)
  qed
qed

lemma utf8_step_append:
  "a < 0x80 \<Longrightarrow> utf8_step b (bs @ a # ys) = utf8_step b bs"
  by (simp add: utf8_step_def seq2_append seq3_append seq4_append is_cont_def)

lemma utf8_decode_append_ascii:
  "a < 0x80 \<Longrightarrow> utf8_decode (xs @ a # ys) = utf8_decode xs @ utf8_decode (a # ys)"
proof (induction xs rule: utf8_decode.induct)
  case 1
  show ?case by simp
next
  case (2 b bs)
  obtain cp n where st: "utf8_step b bs = (cp, n)"
    by (cases "utf8_step b bs")
  have n: "n \<le> Suc (length bs)"
    using utf8_step_bounds [of b bs] st by simp
  have ih: "utf8_decode (drop n (b # bs) @ a # ys)
      = utf8_decode (drop n (b # bs)) @ utf8_decode (a # ys)"
    using "2.IH" [OF st [symmetric] refl "2.prems"] .
  have "utf8_step b (bs @ a # ys) = (cp, n)"
    using utf8_step_append [OF "2.prems"] st by simp
  moreover have "drop n (b # bs @ a # ys) = drop n (b # bs) @ a # ys"
    using n by (metis append_Cons drop_append diff_is_0_eq drop_0 length_Cons)
  ultimately show ?case
    using st ih by (simp del: utf8_decode.simps(2) add: utf8_decode.simps(2) [of b])
qed

lemma utf8_decode_ascii: "a < 0x80 \<Longrightarrow> utf8_decode (a # ys) = a # utf8_decode ys"
  by (simp add: utf8_step_def)

lemma decode_append_CR: "decode (l @ [CR]) = decode l @ [13]"
  using utf8_decode_append_ascii [of 13 "map of_char l" "[]"]
  by (simp add: decode_def CR_def utf8_step_def)

lemma dropWhile_all: "\<forall>c \<in> set s. P c \<Longrightarrow> dropWhile P s = []"
  by (induction s) auto

lemma strip_all_space: "\<forall>c \<in> set s. isspace c \<Longrightarrow> strip s = []"
  by (simp add: strip_def dropWhile_all)

lemma strip_append_space:
  assumes "isspace c"
  shows "strip (s @ [c]) = strip s"
proof (cases "\<forall>x \<in> set s. isspace x")
  case True
  then have "\<forall>x \<in> set (s @ [c]). isspace x"
    using assms by simp
  then have "strip (s @ [c]) = []"
    by (rule strip_all_space)
  then show ?thesis
    using True by (simp add: strip_all_space)
next
  case False
  then obtain x where "x \<in> set s" and "\<not> isspace x"
    by blast
  then have "dropWhile isspace (s @ [c]) = dropWhile isspace s @ [c]"
    by (rule dropWhile_append1)
  then show ?thesis
    using assms by (simp add: strip_def)
qed

lemma last_dropWhile: "dropWhile P xs \<noteq> [] \<Longrightarrow> last (dropWhile P xs) = last xs"
  by (induction xs) (auto split: if_splits)

lemma strip_ends:
  assumes "strip s \<noteq> []"
  shows "\<not> isspace (hd (strip s)) \<and> \<not> isspace (last (strip s))"
proof -
  let ?u = "dropWhile isspace s"
  let ?v = "dropWhile isspace (rev ?u)"
  have v: "?v \<noteq> []"
    using assms by (simp add: strip_def)
  then have u: "?u \<noteq> []"
    by (cases "?u = []") simp_all
  have "last (strip s) = hd ?v"
    using v by (simp add: strip_def last_rev)
  moreover have "\<not> isspace (hd ?v)"
    using v by (rule hd_dropWhile)
  moreover have "hd (strip s) = last ?v"
    using v by (simp add: strip_def hd_rev)
  moreover have "last ?v = hd ?u"
    using last_dropWhile [OF v] u by (simp add: last_rev)
  moreover have "\<not> isspace (hd ?u)"
    using u by (rule hd_dropWhile)
  ultimately show ?thesis
    by simp
qed


lemma extract_lines_stripped:
  "f \<in> set (fst (extract_lines buf)) \<Longrightarrow> \<exists>l. f = strip (decode l)"
proof (induction buf rule: extract_lines.induct)
  case (1 buf)
  show ?case
  proof (cases "find_byte LF buf")
    case None
    with "1.prems" show ?thesis
      by (simp add: extract_lines.simps [of buf])
  next
    case (Some nl)
    with "1.prems" "1.IH" [OF Some refl] show ?thesis
      by (auto simp add: extract_lines.simps [of buf] split: prod.splits)
  qed
qed

lemma handle_line_blank: "handle_line loads str2f peer hb ack [] outs = ([], outs, None)"
  by (simp add: handle_line_def)

lemma serve_lines_skip_blank:
  "serve_lines loads str2f peer hb ack (xs @ [] # ys) outs =
   serve_lines loads str2f peer hb ack (xs @ ys) outs"
proof (induction xs arbitrary: outs)
  case Nil
  show ?case
    by (simp add: handle_line_blank)
next
  case (Cons x xs)
  show ?case
    by (simp add: Cons.IH split: prod.split option.split)
qed

lemma lf_lines_Nil_iff: "lf_lines ls = [] \<longleftrightarrow> ls = []"
  by (cases ls) (simp_all add: lf_lines_def)

lemma recv_lines_lf:
  assumes "\<forall>l \<in> set ls. LF \<notin> set l"
  shows "recv_lines [Data (lf_lines ls)] = (map (\<lambda>l. strip (decode l)) ls, None)"
proof -
  have "extract_lines (lf_lines ls) = (map (\<lambda>l. strip (decode l)) ls, [])"
    using extract_lines_frames [OF assms, of "[]"]
    by (simp add: lf_lines_def extract_lines_Nil)
  then show ?thesis
    by (simp add: recv_lines_received extract_lines_Nil lf_lines_Nil_iff)
qed

lemma crlf_as_lf: "crlf_lines ls = lf_lines (map (\<lambda>l. l @ [CR]) ls)"
  by (simp add: crlf_lines_def lf_lines_def comp_def)

lemma strip_decode_CR: "strip (decode (l @ [CR])) = strip (decode l)"
  by (simp add: decode_append_CR strip_append_space isspace_def)

lemma recv_lines_crlf:
  assumes "\<forall>l \<in> set ls. LF \<notin> set l"
  shows "recv_lines [Data (crlf_lines ls)] = recv_lines [Data (lf_lines ls)]"
proof -
  have "\<forall>l \<in> set (map (\<lambda>l. l @ [CR]) ls). LF \<notin> set l"
    using assms by (simp add: LF_def CR_def)
  then have "recv_lines [Data (crlf_lines ls)]
      = (map (\<lambda>l. strip (decode l)) (map (\<lambda>l. l @ [CR]) ls), None)"
    unfolding crlf_as_lf by (rule recv_lines_lf)
  then show ?thesis
    using recv_lines_lf [OF assms] by (simp add: comp_def strip_decode_CR)
qed

text \<open>
  C1. Let a byte string consist of one message without a newline inside, followed by
  the terminating newline. Delivered to \<open>recv_lines\<close> in two chunks cut at any offset
  \<open>k > 0\<close> (an offset of 0 gives no first chunk: \<open>recv\<close> returns an empty chunk only
  when the peer has closed), it yields exactly one frame, the decoded and stripped
  message, and so does the byte string delivered in one piece.
\<close>

theorem recv_lines_split_at_any_offset:
  assumes "LF \<notin> set m" and "0 < k"
  shows "recv_lines [Data (take k (m @ [LF])), Data (drop k (m @ [LF]))]
           = ([strip (decode m)], None)
         \<and> recv_lines [Data (m @ [LF])] = ([strip (decode m)], None)"
proof -
  have one: "extract_lines (m @ [LF]) = ([strip (decode m)], [])"
    using assms(1) extract_lines_line [of m "[]"] by (simp add: extract_lines_Nil)
  have "take k (m @ [LF]) \<noteq> []"
    using assms(2) by simp
  then have "received [Data (take k (m @ [LF])), Data (drop k (m @ [LF]))] = m @ [LF]"
    and "stream_end [Data (take k (m @ [LF])), Data (drop k (m @ [LF]))] = None"
    using append_take_drop_id [of k "m @ [LF]"] by (simp_all del: append_take_drop_id)
  then show ?thesis
    using one by (simp add: recv_lines_received)
qed

theorem recv_lines_split_at_any_offset_witness:
  "recv_lines [Data (take 5 (''{ }  xyz'' @ [LF])), Data (drop 5 (''{ }  xyz'' @ [LF]))]
     = ([strip (decode ''{ }  xyz'')], None)
   \<and> recv_lines [Data (''{ }  xyz'' @ [LF])] = ([strip (decode ''{ }  xyz'')], None)"
  using recv_lines_split_at_any_offset [of "''{ }  xyz''" 5] by (simp add: LF_def)

text \<open>
  C8. Let the peer send any chunks and then close, and cut the bytes sent into the
  lines \<open>ls\<close>, each ended by a newline, and the bytes \<open>rest\<close> after the last newline.
  Then \<open>recv_lines\<close> yields the lines of \<open>ls\<close>, decoded and stripped, and nothing else:
  whatever \<open>rest\<close> holds is dropped when the zero-byte read ends the generator.
\<close>

theorem recv_lines_drops_unterminated_rest:
  assumes "[] \<notin> set chunks"
    and "\<forall>l \<in> set ls. LF \<notin> set l"
    and "LF \<notin> set rest"
    and "concat chunks = concat (map (\<lambda>l. l @ [LF]) ls) @ rest"
  shows "recv_lines (map Data chunks) = (map (\<lambda>l. strip (decode l)) ls, None)"
proof -
  have "extract_lines (concat chunks) = (map (\<lambda>l. strip (decode l)) ls, rest)"
    using extract_lines_frames [OF assms(2), of rest] assms(3,4)
    by (simp add: extract_lines_no_LF)
  then show ?thesis
    using received_chunks [OF assms(1)] by (simp add: recv_lines_received)
qed

theorem recv_lines_drops_unterminated_rest_witness:
  "recv_lines (map Data [''ab'', ''c'' @ [LF] @ ''de'', [LF] @ ''xyz''])
     = (map (\<lambda>l. strip (decode l)) [''abc'', ''de''], None)"
  using recv_lines_drops_unterminated_rest
    [of "[''ab'', ''c'' @ [LF] @ ''de'', [LF] @ ''xyz'']" "[''abc'', ''de'']" "''xyz''"]
  by (simp add: LF_def)

section \<open>Whitespace around a frame\<close>

text \<open>
  C10. Every frame that \<open>recv_lines\<close> yields has been stripped: it neither starts nor
  ends with a whitespace character. So a stream whose lines end in \<open>\r\n\<close> is handled by
  \<open>handle_client\<close> exactly as the same lines ending in \<open>\n\<close>; and a line that decodes
  to whitespace only leaves no trace: with it in the stream (between the lines \<open>ls1\<close> and
  \<open>ls2\<close>), \<open>handle_client\<close> prints and sends exactly what it does without it.
\<close>

theorem frames_stripped_crlf_blank:
  assumes "\<forall>l \<in> set (ls1 @ ls2). LF \<notin> set l"
    and "LF \<notin> set w"
    and "\<forall>c \<in> set (decode w). isspace c"
  shows "(\<forall>f \<in> set (fst (recv_lines stream)).
            f \<noteq> [] \<longrightarrow> \<not> isspace (hd f) \<and> \<not> isspace (last f))
       \<and> handle_client loads str2f
            \<lparr>incoming = [Data (crlf_lines ls1)], sendall_outcomes = outs\<rparr> addr hb ack
         = handle_client loads str2f
            \<lparr>incoming = [Data (lf_lines ls1)], sendall_outcomes = outs\<rparr> addr hb ack
       \<and> handle_client loads str2f
            \<lparr>incoming = [Data (lf_lines (ls1 @ w # ls2))], sendall_outcomes = outs\<rparr> addr hb ack
         = handle_client loads str2f
            \<lparr>incoming = [Data (lf_lines (ls1 @ ls2))], sendall_outcomes = outs\<rparr> addr hb ack"
proof (intro conjI ballI impI)
  fix f
  assume "f \<in> set (fst (recv_lines stream))" and ne: "f \<noteq> []"
  then obtain l where "f = strip (decode l)"
    using extract_lines_stripped by (auto simp add: recv_lines_received)
  with ne show "\<not> isspace (hd f)" and "\<not> isspace (last f)"
    using strip_ends [of "decode l"] by simp_all
next
  have "\<forall>l \<in> set ls1. LF \<notin> set l"
    using assms(1) by simp
  then have "recv_lines [Data (crlf_lines ls1)] = recv_lines [Data (lf_lines ls1)]"
    by (rule recv_lines_crlf)
  then show "handle_client loads str2f
            \<lparr>incoming = [Data (crlf_lines ls1)], sendall_outcomes = outs\<rparr> addr hb ack
         = handle_client loads str2f
            \<lparr>incoming = [Data (lf_lines ls1)], sendall_outcomes = outs\<rparr> addr hb ack"
    by (simp add: handle_client_def)
next
  have all: "\<forall>l \<in> set (ls1 @ w # ls2). LF \<notin> set l"
    using assms(1,2) by auto
  have blank: "strip (decode w) = []"
    using assms(3) by (rule strip_all_space)
  have a: "recv_lines [Data (lf_lines (ls1 @ w # ls2))]
      = (map (\<lambda>l. strip (decode l)) ls1 @ [] # map (\<lambda>l. strip (decode l)) ls2, None)"
    using recv_lines_lf [OF all] blank by simp
  have b: "recv_lines [Data (lf_lines (ls1 @ ls2))]
      = (map (\<lambda>l. strip (decode l)) ls1 @ map (\<lambda>l. strip (decode l)) ls2, None)"
    using recv_lines_lf [OF assms(1)] by simp
  show "handle_client loads str2f
            \<lparr>incoming = [Data (lf_lines (ls1 @ w # ls2))], sendall_outcomes = outs\<rparr> addr hb ack
         = handle_client loads str2f
            \<lparr>incoming = [Data (lf_lines (ls1 @ ls2))], sendall_outcomes = outs\<rparr> addr hb ack"
    by (simp add: handle_client_def a b serve_lines_skip_blank)
qed

theorem frames_stripped_crlf_blank_witness:
  "fst (recv_lines [Data (lf_lines ['' ab  ''])]) = [[97, 98]]
   \<and> \<not> isspace (hd [97, 98]) \<and> \<not> isspace (last [97, 98])
   \<and> handle_client (\<lambda>l. Inl JSONDecodeError) (\<lambda>s. None)
      \<lparr>incoming = [Data (crlf_lines [''ab''])], sendall_outcomes = []\<rparr> ([], 0) False False
    = handle_client (\<lambda>l. Inl JSONDecodeError) (\<lambda>s. None)
      \<lparr>incoming = [Data (lf_lines [''ab''])], sendall_outcomes = []\<rparr> ([], 0) False False
   \<and> handle_client (\<lambda>l. Inl JSONDecodeError) (\<lambda>s. None)
      \<lparr>incoming = [Data (lf_lines ([''ab''] @ ('' '' @ [CR]) # [''cd'']))], sendall_outcomes = []\<rparr>
      ([], 0) False False
    = handle_client (\<lambda>l. Inl JSONDecodeError) (\<lambda>s. None)
      \<lparr>incoming = [Data (lf_lines ([''ab''] @ [''cd'']))], sendall_outcomes = []\<rparr>
      ([], 0) False False"
proof -
  have frames: "fst (recv_lines [Data (lf_lines ['' ab  ''])]) = [[97, 98]]"
    by (simp add: recv_lines_lf LF_def decode_def utf8_step_def strip_def isspace_def)
  show ?thesis
    using frames frames_stripped_crlf_blank [of "[''ab'']" "[''cd'']" "'' '' @ [CR]"
      "[Data (lf_lines ['' ab  ''])]" "\<lambda>l. Inl JSONDecodeError" "\<lambda>s. None" "[]" "([], 0)"
      False False]
    by (simp add: LF_def CR_def decode_def utf8_step_def isspace_def)
qed

section \<open>Malformed and blank lines\<close>

lemma ascii_eq_iff [simp]: "ascii s = ascii t \<longleftrightarrow> s = t"
  by (simp add: ascii_def inj_map_eq_map [OF inj_of_char])

lemma ascii_Nil_iff [simp]: "ascii s = [] \<longleftrightarrow> s = []"
  by (simp add: ascii_def)

lemma of_char_not_surrogate: "\<not> is_surrogate (of_char c)"
proof -
  have "(of_char c :: nat) < 256"
    by (metis of_char_mod_256 mod_less_divisor zero_less_numeral)
  then show ?thesis
    unfolding is_surrogate_def by linarith
qed

lemma ascii_encodable [simp]: "list_ex is_surrogate (ascii s) = False"
  by (simp add: ascii_def list_ex_iff of_char_not_surrogate)

lemma dec_digits_encodable [simp]: "list_ex is_surrogate (dec_digits n) = False"
proof (induction n rule: dec_digits.induct)
  case (1 n)
  then show ?case
  proof (cases "n < 10")
    case True
    then show ?thesis
      by (subst dec_digits.simps) (simp add: is_surrogate_def)
  next
    case False
    have "\<not> is_surrogate (48 + n mod 10)"
      unfolding is_surrogate_def by presburger
    with False 1 show ?thesis
      by (subst dec_digits.simps) simp
  qed
qed

lemma peer_of_encodable [simp]: "list_ex is_surrogate (peer_of (ascii h, p)) = False"
  by (simp add: peer_of_def)

lemma list_ex_take: "\<not> list_ex P xs \<Longrightarrow> \<not> list_ex P (take n xs)"
  by (auto simp add: list_ex_iff dest: in_set_takeD)

lemma bad_json_text_encodable:
  "\<not> list_ex is_surrogate peer \<Longrightarrow> \<not> list_ex is_surrogate line
   \<Longrightarrow> \<not> list_ex unencodable (bad_json_text peer line)"
  by (simp add: bad_json_text_def list_ex_take)

lemma decode_ascii_bytes:
  "\<forall>c \<in> set l. (of_char c :: nat) < 0x80 \<Longrightarrow> decode l = ascii l"
  unfolding decode_def ascii_def
  by (induction l) (simp_all add: utf8_decode_ascii del: utf8_decode.simps(2))

lemma strip_no_space_ends:
  assumes "s \<noteq> []" and "\<not> isspace (hd s)" and "\<not> isspace (last s)"
  shows "strip s = s"
proof -
  have "dropWhile isspace s = s"
    using assms(1,2) by (cases s) simp_all
  moreover have "dropWhile isspace (rev s) = rev s"
    using assms(1,3) by (cases "rev s") (simp_all add: last_rev [symmetric] del: last_rev)
  ultimately show ?thesis
    by (simp add: strip_def)
qed

lemma line_deep_Cons: "line_deep = CHR ''['' # replicate 999 (CHR ''['')"
proof -
  have "(1000 :: nat) = Suc 999"
    by simp
  then show ?thesis
    unfolding line_deep_def by (simp only: replicate_Suc)
qed

lemma line_deep_not_blank: "line_deep \<noteq> []"
  by (simp add: line_deep_Cons)

lemma LF_notin_deep: "LF \<notin> set line_deep"
  by (simp add: line_deep_def LF_def)

lemma strip_decode_deep: "strip (decode line_deep) = ascii line_deep"
proof -
  have d: "decode line_deep = ascii line_deep"
    by (rule decode_ascii_bytes) (simp add: line_deep_def)
  have "hd (ascii line_deep) = 91" "last (ascii line_deep) = 91"
    by (simp_all add: ascii_def line_deep_def hd_map last_map)
  then show ?thesis
    unfolding d
    by (intro strip_no_space_ends) (simp_all add: isspace_def line_deep_not_blank ascii_def)
qed

lemma neq_line_deep [simp]:
  "c \<noteq> CHR ''['' \<Longrightarrow> (c # cs = line_deep) = False"
  "c \<noteq> CHR ''['' \<Longrightarrow> (line_deep = c # cs) = False"
  "([] = line_deep) = False" "(line_deep = []) = False"
  by (auto simp add: line_deep_Cons)

lemma recv_lines_chunks:
  assumes "[] \<notin> set chunks"
    and "\<forall>l \<in> set ls. LF \<notin> set l"
    and "concat chunks = lf_lines ls"
  shows "recv_lines (map Data chunks) = (map (\<lambda>l. strip (decode l)) ls, None)"
proof -
  have "extract_lines (concat chunks) = (map (\<lambda>l. strip (decode l)) ls, [])"
    using extract_lines_frames [OF assms(2), of "[]"] assms(3)
    by (simp add: lf_lines_def extract_lines_Nil)
  then show ?thesis
    using received_chunks [OF assms(1)] by (simp add: recv_lines_received)
qed

text \<open>
  What holds of C2. Let a stream, cut into chunks in any way, hold one line that is not
  blank and on which \<open>json.loads\<close> raises \<open>JSONDecodeError\<close>, followed by further
  lines. Then \<open>handle_client\<close> does exactly what it does on the stream without that
  line, plus the one warning for it (printed right after the connection message). And
  when the further lines are \<open>N\<close> \<open>input\<close> messages that \<open>build_line\<close> renders and
  \<open>print\<close> can write, exactly these \<open>N\<close> lines are printed, after the one warning, and
  the function returns when the peer closes (acks off).
\<close>

lemma serve_lines_bad:
  assumes "line \<noteq> []" and "loads line = Inl JSONDecodeError"
    and "\<not> list_ex unencodable (bad_json_text peer line)"
  shows "serve_lines loads str2f peer hb ack (line # rest) outs =
           (bad_json_warning peer line # fst (serve_lines loads str2f peer hb ack rest outs),
            snd (serve_lines loads str2f peer hb ack rest outs))"
  using assms
  by (simp add: handle_line_def print_line_def bad_json_warning_def split: prod.split)

lemma serve_lines_inputs:
  assumes "list_all2 (\<lambda>line (d, rendered). line \<noteq> [] \<and> loads line = Inr (JDict d)
              \<and> dict_get d (ascii ''type'') JNull = JStr (ascii ''input'')
              \<and> build_line str2f (JDict d) = Inr rendered
              \<and> \<not> list_ex unencodable rendered) lines msgs"
  shows "serve_lines loads str2f peer hb False lines outs =
           (map (\<lambda>(d, rendered). Print rendered) msgs, None)"
  using assms
proof (induction lines msgs rule: list_all2_induct)
  case Nil
  show ?case by simp
next
  case (Cons line lines m msgs)
  then show ?case
    by (cases m) (simp add: handle_line_def)
qed

lemma decode_error_warned_and_skipped:
  assumes "[] \<notin> set chunks" and "concat chunks = lf_lines (bad # rest)"
    and "[] \<notin> set chunks'" and "concat chunks' = lf_lines rest"
    and "\<forall>l \<in> set (bad # rest). LF \<notin> set l"
    and "strip (decode bad) \<noteq> []"
    and "loads (strip (decode bad)) = Inl JSONDecodeError"
    and "\<not> list_ex unencodable (bad_json_text (peer_of addr) (strip (decode bad)))"
  shows "handle_client loads str2f \<lparr>incoming = map Data chunks, sendall_outcomes = outs\<rparr>
             addr hb ack
           = (case handle_client loads str2f
                     \<lparr>incoming = map Data chunks', sendall_outcomes = outs\<rparr> addr hb ack of
                (evs, r) \<Rightarrow>
                  (hd evs # bad_json_warning (peer_of addr) (strip (decode bad)) # tl evs, r))
         \<and> (list_all2 (\<lambda>l (d, rendered). strip (decode l) \<noteq> []
                  \<and> loads (strip (decode l)) = Inr (JDict d)
                  \<and> dict_get d (ascii ''type'') JNull = JStr (ascii ''input'')
                  \<and> build_line str2f (JDict d) = Inr rendered
                  \<and> \<not> list_ex unencodable rendered) rest msgs \<longrightarrow>
             handle_client loads str2f \<lparr>incoming = map Data chunks, sendall_outcomes = outs\<rparr>
                 addr hb False
               = (connected_line (peer_of addr)
                    # bad_json_warning (peer_of addr) (strip (decode bad))
                    # map (\<lambda>(d, rendered). Print rendered) msgs
                    @ [disconnected_line (peer_of addr)], None))"
proof -
  let ?post = "\<lambda>l. strip (decode l)"
  have a: "recv_lines (map Data chunks) = (?post bad # map ?post rest, None)"
    using recv_lines_chunks [OF assms(1) assms(5) assms(2)] by simp
  have "\<forall>l \<in> set rest. LF \<notin> set l"
    using assms(5) by simp
  then have b: "recv_lines (map Data chunks') = (map ?post rest, None)"
    using assms(3,4) by (intro recv_lines_chunks)
  note bad = serve_lines_bad [of "strip (decode bad)" loads, OF assms(6,7,8)]
  have first: "handle_client loads str2f \<lparr>incoming = map Data chunks, sendall_outcomes = outs\<rparr>
             addr hb ack
           = (case handle_client loads str2f
                     \<lparr>incoming = map Data chunks', sendall_outcomes = outs\<rparr> addr hb ack of
                (evs, r) \<Rightarrow>
                  (hd evs # bad_json_warning (peer_of addr) (strip (decode bad)) # tl evs, r))"
  proof (cases "serve_lines loads str2f (peer_of addr) hb ack (map ?post rest) outs")
    case (Pair evs r)
    then show ?thesis
      by (cases r) (simp_all add: handle_client_def Let_def a b bad del: serve_lines.simps)
  qed
  have second: "handle_client loads str2f
                 \<lparr>incoming = map Data chunks, sendall_outcomes = outs\<rparr> addr hb False
               = (connected_line (peer_of addr)
                    # bad_json_warning (peer_of addr) (strip (decode bad))
                    # map (\<lambda>(d, rendered). Print rendered) msgs
                    @ [disconnected_line (peer_of addr)], None)"
    if "list_all2 (\<lambda>l (d, rendered). strip (decode l) \<noteq> []
                  \<and> loads (strip (decode l)) = Inr (JDict d)
                  \<and> dict_get d (ascii ''type'') JNull = JStr (ascii ''input'')
                  \<and> build_line str2f (JDict d) = Inr rendered
                  \<and> \<not> list_ex unencodable rendered) rest msgs"
  proof -
    have "list_all2 (\<lambda>line (d, rendered). line \<noteq> [] \<and> loads line = Inr (JDict d)
              \<and> dict_get d (ascii ''type'') JNull = JStr (ascii ''input'')
              \<and> build_line str2f (JDict d) = Inr rendered
              \<and> \<not> list_ex unencodable rendered) (map ?post rest) msgs"
      using that by (simp add: list_all2_map1)
    then have "serve_lines loads str2f (peer_of addr) hb False (map ?post rest) outs =
           (map (\<lambda>(d, rendered). Print rendered) msgs, None)"
      by (rule serve_lines_inputs)
    then show ?thesis
      by (simp add: handle_client_def Let_def a bad del: serve_lines.simps)
  qed
  from first second show ?thesis
    by blast
qed

lemma build_line_input7:
  "build_line str2f (JDict msg_input7) =
     Inr [Lit (ascii ''[''), Fmt (JStr (ascii ''input'')), Lit (ascii ''] seq=''),
          Fmt (JInt 7), Lit (ascii '' ts=''), Fmt (JStr []), Lit (ascii ''  ''),
          Lit (ascii ''axes(lx=''), Fmt (JStr (ascii ''na'')),
          Lit (ascii '' ly=''), Fmt (JStr (ascii ''na'')),
          Lit (ascii ''  rx=''), Fmt (JStr (ascii ''na'')),
          Lit (ascii '' ry=''), Fmt (JStr (ascii ''na'')),
          Lit (ascii ''  lt=''), Fmt (JStr (ascii ''na'')),
          Lit (ascii '' rt=''), Fmt (JStr (ascii ''na'')), Lit (ascii '')  ''),
          Lit (ascii ''dpad(x=''), Fmt (JInt 0), Lit (ascii '' y=''), Fmt (JInt 0),
          Lit (ascii '')  ''), Lit (ascii ''pressed=[''), Fmt (JStr (ascii ''-'')),
          Lit (ascii '']'')]"
  by (simp add: build_line_def msg_input7_def bind_exn_def dict_get_def py_or_def
      fmt_float_def pressed_buttons_def)

lemma input7_encodable:
  "\<not> list_ex unencodable (projr (build_line str2f (JDict msg_input7)))"
  by (simp add: build_line_input7)

lemma strip_decode_input7: "strip (decode line_input7) = ascii line_input7"
  by (simp add: line_input7_def decode_def utf8_step_def strip_def isspace_def ascii_def)

lemma strip_decode_bad: "strip (decode ''{bad'') = ascii ''{bad''"
  by (simp add: decode_def utf8_step_def strip_def isspace_def ascii_def)

lemma example_loads_bad: "example_loads (ascii ''{bad'') = Inl JSONDecodeError"
  by (simp add: example_loads_def line_input7_def line_heartbeat8_def line_bad_axes_def)

lemma example_loads_input7: "example_loads (ascii line_input7) = Inr (JDict msg_input7)"
  by (simp add: example_loads_def)

lemma LF_notin_input7: "LF \<notin> set line_input7"
  by (simp add: line_input7_def LF_def)

lemma LF_notin_bad: "LF \<notin> set ''{bad''"
  by (simp add: LF_def)

lemma input7_not_blank: "line_input7 \<noteq> []"
  by (simp add: line_input7_def)

lemma input7_type: "dict_get msg_input7 (ascii ''type'') JNull = JStr (ascii ''input'')"
  by (simp add: dict_get_def msg_input7_def)

lemma example_loads_deep: "example_loads (ascii line_deep) = Inl RecursionError"
  by (simp add: example_loads_def line_input7_def line_heartbeat8_def line_bad_axes_def)

text \<open>
  The line \<open>{bad\<close>, arriving in two pieces, is answered by one warning, and the \<open>input\<close>
  message after it is printed.
\<close>

lemma decode_error_example:
  "handle_client example_loads (\<lambda>s. None)
      \<lparr>incoming = map Data [''{ba'', ''d'' @ [LF] @ line_input7 @ [LF]], sendall_outcomes = []\<rparr>
      (ascii ''pi'', 55001) False False
    = ([connected_line (peer_of (ascii ''pi'', 55001)),
        bad_json_warning (peer_of (ascii ''pi'', 55001)) (ascii ''{bad''),
        Print (projr (build_line (\<lambda>s. None) (JDict msg_input7))),
        disconnected_line (peer_of (ascii ''pi'', 55001))], None)"
proof -
  have 1: "[] \<notin> set [''{ba'', ''d'' @ [LF] @ line_input7 @ [LF]]"
    by simp
  have 2: "concat [''{ba'', ''d'' @ [LF] @ line_input7 @ [LF]] = lf_lines [''{bad'', line_input7]"
    by (simp add: lf_lines_def)
  have 3: "[] \<notin> set [line_input7 @ [LF]]"
    by simp
  have 4: "concat [line_input7 @ [LF]] = lf_lines [line_input7]"
    by (simp add: lf_lines_def)
  have 5: "\<forall>l \<in> set [''{bad'', line_input7]. LF \<notin> set l"
    using LF_notin_bad LF_notin_input7 by simp
  have 6: "strip (decode ''{bad'') \<noteq> []"
    by (simp add: strip_decode_bad)
  have 7: "example_loads (strip (decode ''{bad'')) = Inl JSONDecodeError"
    by (simp add: strip_decode_bad example_loads_bad)
  have 8: "\<not> list_ex unencodable
             (bad_json_text (peer_of (ascii ''pi'', 55001)) (strip (decode ''{bad'')))"
    by (simp add: strip_decode_bad bad_json_text_encodable)
  have 9: "list_all2 (\<lambda>l (d, rendered). strip (decode l) \<noteq> []
                  \<and> example_loads (strip (decode l)) = Inr (JDict d)
                  \<and> dict_get d (ascii ''type'') JNull = JStr (ascii ''input'')
                  \<and> build_line (\<lambda>s. None) (JDict d) = Inr rendered
                  \<and> \<not> list_ex unencodable rendered) [line_input7]
               [(msg_input7, projr (build_line (\<lambda>s. None) (JDict msg_input7)))]"
    by (simp add: strip_decode_input7 example_loads_input7 input7_not_blank input7_type
        build_line_input7)
  show ?thesis
    using decode_error_warned_and_skipped [where loads = example_loads and ?str2f = "\<lambda>s. None"
        and outs = "[]" and addr = "(ascii ''pi'', 55001)" and hb = False and ack = False
        and msgs = "[(msg_input7, projr (build_line (\<lambda>s. None) (JDict msg_input7)))]",
        OF 1 2 3 4 5 6 7 8, THEN conjunct2, THEN mp, OF 9]
    unfolding strip_decode_bad by simp
qed

lemma example_loads_blank:
  "example_loads [] = Inl JSONDecodeError" "example_loads (ascii ''  '') = Inl JSONDecodeError"
proof -
  have "example_loads (ascii []) = Inl JSONDecodeError"
    by (simp add: example_loads_def line_input7_def line_heartbeat8_def line_bad_axes_def)
  then show "example_loads [] = Inl JSONDecodeError"
    by (simp add: ascii_def)
  show "example_loads (ascii ''  '') = Inl JSONDecodeError"
    by (simp add: example_loads_def line_input7_def line_heartbeat8_def line_bad_axes_def)
qed

text \<open>
  A line of two spaces is no JSON document either, and the loop skips it before
  \<open>json.loads\<close> is called (\<open>if not line: continue\<close>): the stream made of this line and
  one valid \<open>input\<close> line gives the connection message, the one delivered message and the
  disconnection message, and no warning.
\<close>

lemma blank_line_no_warning:
  "example_loads (ascii ''  '') = Inl JSONDecodeError
   \<and> example_loads (strip (decode ''  '')) = Inl JSONDecodeError
   \<and> handle_client example_loads (\<lambda>s. None)
        \<lparr>incoming = [Data (lf_lines [''  '', line_input7])], sendall_outcomes = []\<rparr>
        (ascii ''pi'', 55001) False False
      = ([connected_line (peer_of (ascii ''pi'', 55001)),
          Print (projr (build_line (\<lambda>s. None) (JDict msg_input7))),
          disconnected_line (peer_of (ascii ''pi'', 55001))], None)"
proof -
  have blank: "strip (decode ''  '') = []"
    by (simp add: decode_def utf8_step_def strip_def isspace_def)
  have "\<forall>l \<in> set [''  '', line_input7]. LF \<notin> set l"
    using LF_notin_input7 by (simp add: LF_def)
  then have "recv_lines [Data (lf_lines [''  '', line_input7])]
      = ([[], ascii line_input7], None)"
    by (simp add: recv_lines_lf blank strip_decode_input7)
  then show ?thesis
    by (simp add: handle_client_def handle_line_def blank example_loads_input7 input7_not_blank
        input7_type build_line_input7 example_loads_blank Let_def)
qed


text \<open>
  C2 fails on an invalid line on which \<open>json.loads\<close> raises another exception than
  \<open>JSONDecodeError\<close>: the loop catches only that one. The line of 1000 opening brackets
  is not valid JSON and makes the parser raise \<open>RecursionError\<close>; on the stream made of
  this line and one valid \<open>input\<close> line, \<open>handle_client\<close> prints the connection message
  and is left by the exception: no warning is printed, the valid message after the line
  is not delivered, and the loop has ended because of the invalid line.
\<close>

theorem deep_nesting_ends_connection:
  "example_loads (strip (decode line_deep)) = Inl RecursionError
   \<and> handle_client example_loads str2f
        \<lparr>incoming = [Data (lf_lines [line_deep, line_input7])], sendall_outcomes = outs\<rparr>
        addr hb ack
      = ([connected_line (peer_of addr)], Some RecursionError)"
proof -
  have "\<forall>l \<in> set [line_deep, line_input7]. LF \<notin> set l"
    using LF_notin_input7 LF_notin_deep by simp
  then have "recv_lines [Data (lf_lines [line_deep, line_input7])]
      = ([ascii line_deep, ascii line_input7], None)"
    by (simp add: recv_lines_lf strip_decode_input7 strip_decode_deep)
  then show ?thesis
    by (simp add: handle_client_def handle_line_def Let_def strip_decode_deep
        example_loads_deep line_deep_not_blank)
qed


section \<open>Defensive field extraction in \<open>build_line\<close>\<close>

text \<open>
  What holds of C9: an axis that is missing, or that \<open>float\<close> cannot convert, is
  rendered as \<open>"na"\<close>; when \<open>axes\<close> and \<open>dpad\<close> are dicts, or missing, or falsy,
  \<open>build_line\<close> returns, with a missing dpad component as 0 and missing buttons as no
  button; and the example of the design document is rendered with \<open>lx=0.500\<close>, the
  pressed buttons \<open>a\<close> and the dpad \<open>x=0 y=-1\<close>.
\<close>

lemma replicate_small:
  "replicate 1 x = [x]" "replicate 2 x = [x, x]" "replicate 3 x = [x, x, x]"
  by (simp_all add: numeral_2_eq_2 numeral_3_eq_3)

lemma fmt_float_half: "fmt_float str2f (JFloat (Finite (1 / 2))) 3 = ascii ''0.500''"
  by (simp add: fmt_float_def fixed_digits_def round_half_even_def Let_def ascii_def
      replicate_small dec_digits.simps)

lemma fmt_float_ly:
  "fmt_float str2f (JFloat (Finite (- (3602879701896397 / 18014398509481984)))) 3
     = ascii ''-0.200''"
  by (simp add: fmt_float_def fixed_digits_def round_half_even_def Let_def ascii_def
      replicate_small dec_digits.simps)

lemma fmt_float_zero: "fmt_float str2f (JInt 0) 3 = ascii ''0.000''"
  by (simp add: fmt_float_def round_to_double_def fixed_digits_def round_half_even_def Let_def
      ascii_def replicate_small dec_digits.simps)

lemma fmt_float_one: "fmt_float str2f (JFloat (Finite 1)) 3 = ascii ''1.000''"
  by (simp add: fmt_float_def fixed_digits_def round_half_even_def Let_def ascii_def
      replicate_small dec_digits.simps)

lemma fmt_float_None: "fmt_float str2f JNull places = ascii ''na''"
  by (simp add: fmt_float_def)

lemma fmt_float_invalid: "py_float str2f v = Inl e \<Longrightarrow> fmt_float str2f v places = ascii ''na''"
  by (simp add: fmt_float_def)

lemma pressed_spec_example:
  "pressed_buttons (JDict [(ascii ''a'', JInt 1), (ascii ''b'', JInt 0)]) = ascii ''a''"
  by (simp add: pressed_buttons_def)

lemma build_line_spec_example:
  "build_line str2f (JDict msg_spec_example) =
     Inr [Lit (ascii ''[''), Fmt (JStr (ascii ''input'')), Lit (ascii ''] seq=''),
          Fmt (JInt 7), Lit (ascii '' ts=''), Fmt (JStr (ascii ''2024-01-01T00:00:00Z'')),
          Lit (ascii ''  ''),
          Lit (ascii ''axes(lx=''), Fmt (JStr (ascii ''0.500'')),
          Lit (ascii '' ly=''), Fmt (JStr (ascii ''-0.200'')),
          Lit (ascii ''  rx=''), Fmt (JStr (ascii ''0.000'')),
          Lit (ascii '' ry=''), Fmt (JStr (ascii ''0.000'')),
          Lit (ascii ''  lt=''), Fmt (JStr (ascii ''0.000'')),
          Lit (ascii '' rt=''), Fmt (JStr (ascii ''1.000'')), Lit (ascii '')  ''),
          Lit (ascii ''dpad(x=''), Fmt (JInt 0), Lit (ascii '' y=''), Fmt (JInt (- 1)),
          Lit (ascii '')  ''), Lit (ascii ''pressed=[''), Fmt (JStr (ascii ''a'')),
          Lit (ascii '']'')]"
  by (simp add: build_line_def msg_spec_example_def bind_exn_def dict_get_def py_or_def
      fmt_float_half fmt_float_ly fmt_float_zero fmt_float_one pressed_spec_example)

lemma build_line_shape:
  assumes "py_or (dict_get d (ascii ''axes'') (JDict [])) (JDict []) = JDict ax"
    and "py_or (dict_get d (ascii ''dpad'') (JDict [])) (JDict []) = JDict dp"
  shows "build_line str2f (JDict d) =
     Inr [Lit (ascii ''[''), Fmt (dict_get d (ascii ''type'') (JStr (ascii ''?''))),
          Lit (ascii ''] seq=''), Fmt (dict_get d (ascii ''seq'') (JStr [])),
          Lit (ascii '' ts=''), Fmt (dict_get d (ascii ''ts'') (JStr [])), Lit (ascii ''  ''),
          Lit (ascii ''axes(lx=''), Fmt (JStr (fmt_float str2f (dict_get ax (ascii ''lx'') JNull) 3)),
          Lit (ascii '' ly=''), Fmt (JStr (fmt_float str2f (dict_get ax (ascii ''ly'') JNull) 3)),
          Lit (ascii ''  rx=''), Fmt (JStr (fmt_float str2f (dict_get ax (ascii ''rx'') JNull) 3)),
          Lit (ascii '' ry=''), Fmt (JStr (fmt_float str2f (dict_get ax (ascii ''ry'') JNull) 3)),
          Lit (ascii ''  lt=''), Fmt (JStr (fmt_float str2f (dict_get ax (ascii ''lt'') JNull) 3)),
          Lit (ascii '' rt=''), Fmt (JStr (fmt_float str2f (dict_get ax (ascii ''rt'') JNull) 3)),
          Lit (ascii '')  ''),
          Lit (ascii ''dpad(x=''), Fmt (dict_get dp (ascii ''x'') (JInt 0)),
          Lit (ascii '' y=''), Fmt (dict_get dp (ascii ''y'') (JInt 0)), Lit (ascii '')  ''),
          Lit (ascii ''pressed=[''),
          Fmt (JStr (pressed_buttons (dict_get d (ascii ''buttons'') (JDict [])))),
          Lit (ascii '']'')]"
  using assms by (simp add: build_line_def bind_exn_def)

lemma build_line_bad_axes: "build_line str2f (JDict msg_bad_axes) = Inl AttributeError"
  by (simp add: build_line_def msg_bad_axes_def bind_exn_def dict_get_def py_or_def)

lemma example_loads_bad_axes: "example_loads (ascii line_bad_axes) = Inr (JDict msg_bad_axes)"
  by (simp add: example_loads_def line_input7_def line_heartbeat8_def line_bad_axes_def)

lemma strip_decode_bad_axes: "strip (decode line_bad_axes) = ascii line_bad_axes"
  by (simp add: line_bad_axes_def decode_def utf8_step_def strip_def isspace_def ascii_def)

lemma LF_notin_bad_axes: "LF \<notin> set line_bad_axes"
  by (simp add: line_bad_axes_def LF_def)

lemma bad_axes_not_blank: "line_bad_axes \<noteq> []"
  by (simp add: line_bad_axes_def)

lemma bad_axes_type: "dict_get msg_bad_axes (ascii ''type'') JNull = JStr (ascii ''input'')"
  by (simp add: dict_get_def msg_bad_axes_def)


text \<open>
  C9 fails where \<open>axes\<close> (or \<open>dpad\<close>) is present, truthy and not a dict: the line
  \<open>{"type":"input","seq":9,"axes":5}\<close> decodes, its axis values are all absent, and
  \<open>build_line\<close> raises \<open>AttributeError\<close> at \<open>axes.get("lx")\<close>. Nothing catches it in
  \<open>handle_client\<close>: the connection is left with the exception, and the valid line after
  it is never handled. (\<open>pressed_buttons\<close> guards the same case for \<open>buttons\<close> with
  \<open>isinstance\<close>.)
\<close>

theorem non_dict_axes_abort:
  "build_line str2f (JDict msg_bad_axes) = Inl AttributeError
   \<and> handle_client example_loads str2f
        \<lparr>incoming = [Data (lf_lines [line_bad_axes, line_input7])], sendall_outcomes = outs\<rparr>
        addr hb ack
      = ([connected_line (peer_of addr)], Some AttributeError)"
proof -
  have "\<forall>l \<in> set [line_bad_axes, line_input7]. LF \<notin> set l"
    using LF_notin_input7 LF_notin_bad_axes by simp
  then have "recv_lines [Data (lf_lines [line_bad_axes, line_input7])]
      = ([ascii line_bad_axes, ascii line_input7], None)"
    by (simp add: recv_lines_lf strip_decode_input7 strip_decode_bad_axes)
  then show ?thesis
    by (simp add: handle_client_def handle_line_def Let_def build_line_bad_axes
        example_loads_bad_axes bad_axes_not_blank bad_axes_type)
qed


section \<open>Acknowledgments\<close>

text \<open>
  What holds of C7: with acks on, a decoded message whose handling returns has an ack
  handed to \<open>sendall\<close> exactly when its type is \<open>"input"\<close>, and that ack carries the
  \<open>seq\<close> of the message (\<open>null\<close> when it has none).
\<close>

lemma sent_objects_append: "sent_objects (xs @ ys) = sent_objects xs @ sent_objects ys"
  by (induction xs rule: sent_objects.induct) simp_all

lemma sent_objects_send_ack_line:
  "sent_objects (fst (send_ack_line sq outs))
     = [JDict [(ascii ''type'', JStr (ascii ''ack'')), (ascii ''seq'', sq)]]"
  by (simp add: send_ack_line_def Let_def split: send_outcome.split list.split)

lemma ack_iff_input:
  assumes "line \<noteq> []" and "loads line = Inr (JDict d)"
    and "handle_line loads str2f peer hb True line outs = (evs, outs', None)"
  shows "sent_objects evs =
           (if dict_get d (ascii ''type'') JNull = JStr (ascii ''input'')
            then [JDict [(ascii ''type'', JStr (ascii ''ack'')),
                         (ascii ''seq'', dict_get d (ascii ''seq'') JNull)]]
            else [])"
  using assms sent_objects_send_ack_line [of "dict_get d (ascii ''seq'') JNull" outs]
  by (auto simp add: handle_line_def print_line_def Let_def
      split: sum.splits prod.splits if_splits)

text \<open>
  The \<open>print\<close> before the ack is not guarded either: an \<open>input\<close> message whose \<open>ts\<close> is
  a lone surrogate is rendered by \<open>build_line\<close>, \<open>print\<close> raises \<open>UnicodeEncodeError\<close>
  on the rendered line, and the loop is left before the ack.
\<close>

lemma unprintable_input_without_ack:
  assumes "line \<noteq> []" and "loads line = Inr (JDict msg_surrogate_ts)"
  shows "handle_line loads str2f peer hb True line outs
           = ([], outs, Some UnicodeEncodeError)"
  using assms
  by (simp add: handle_line_def msg_surrogate_ts_def build_line_def bind_exn_def dict_get_def
      py_or_def is_surrogate_def)


text \<open>
  C7 fails on the message of C9's failing line, by the same defect: its type is
  \<open>"input"\<close>, acks are on, and the loop body raises in \<open>build_line\<close> before it reaches
  the ack; nothing is sent.
\<close>

theorem input_message_without_ack:
  "dict_get msg_bad_axes (ascii ''type'') JNull = JStr (ascii ''input'')
   \<and> handle_line example_loads str2f peer hb True (ascii line_bad_axes) outs
       = ([], outs, Some AttributeError)"
  by (simp add: handle_line_def Let_def build_line_bad_axes example_loads_bad_axes
      bad_axes_not_blank bad_axes_type)


section \<open>Silence on the link\<close>

lemma recv_loop_idle:
  "recv_loop buf (filter (\<lambda>e. \<not> is_idle e) stream) = recv_loop buf stream"
  by (induction buf stream rule: recv_loop.induct) (simp_all split: prod.split)

lemma recv_lines_None_iff: "snd (recv_lines stream) = stream_end stream"
  by (simp add: recv_lines_received)

lemma silent_hour_run:
  "handle_client example_loads (\<lambda>s. None)
      \<lparr>incoming = [Data (lf_lines [line_input7]), Idle 3600000, Data (lf_lines [line_input7])],
        sendall_outcomes = []\<rparr>
      (ascii ''pi'', 55001) False False
    = ([connected_line (peer_of (ascii ''pi'', 55001)),
        Print (projr (build_line (\<lambda>s. None) (JDict msg_input7))),
        Print (projr (build_line (\<lambda>s. None) (JDict msg_input7))),
        disconnected_line (peer_of (ascii ''pi'', 55001))], None)"
proof -
  have "recv_lines [Data (lf_lines [line_input7]), Idle 3600000, Data (lf_lines [line_input7])]
      = recv_lines (map Data [lf_lines [line_input7], lf_lines [line_input7]])"
    by (simp add: recv_lines_def)
  also have "\<dots> = (map (\<lambda>l. strip (decode l)) [line_input7, line_input7], None)"
    using LF_notin_input7 by (intro recv_lines_chunks) (simp_all add: lf_lines_def)
  finally show ?thesis
    by (simp add: handle_client_def handle_line_def Let_def strip_decode_input7
        example_loads_input7 input7_not_blank input7_type build_line_input7)
qed


text \<open>
  C6, as the code has it. The receiver has no stale-link timeout and no link-lost
  callback: stretches of silence of any length change nothing in what \<open>handle_client\<close>
  prints, sends and returns, and it returns only after the peer has closed (a zero-byte
  read); otherwise it is left by an exception.
\<close>

theorem no_stale_link_timeout:
  "handle_client loads str2f \<lparr>incoming = stream, sendall_outcomes = outs\<rparr> addr hb ack
     = handle_client loads str2f
         \<lparr>incoming = filter (\<lambda>e. \<not> is_idle e) stream, sendall_outcomes = outs\<rparr> addr hb ack
   \<and> (snd (handle_client loads str2f \<lparr>incoming = stream, sendall_outcomes = outs\<rparr>
              addr hb ack) = None
        \<longrightarrow> stream_end stream = None)"
proof
  show "handle_client loads str2f \<lparr>incoming = stream, sendall_outcomes = outs\<rparr> addr hb ack
     = handle_client loads str2f
         \<lparr>incoming = filter (\<lambda>e. \<not> is_idle e) stream, sendall_outcomes = outs\<rparr> addr hb ack"
    by (simp add: handle_client_def recv_lines_def recv_loop_idle)
  show "snd (handle_client loads str2f \<lparr>incoming = stream, sendall_outcomes = outs\<rparr>
              addr hb ack) = None
        \<longrightarrow> stream_end stream = None"
    using recv_lines_None_iff [of stream]
    by (auto simp add: handle_client_def Let_def split: prod.splits option.splits)
qed

theorem no_stale_link_timeout_witness:
  "handle_client example_loads (\<lambda>s. None)
      \<lparr>incoming = [Data (lf_lines [line_input7]), Idle 3600000, Data (lf_lines [line_input7])],
        sendall_outcomes = []\<rparr> (ascii ''pi'', 55001) False False
    = handle_client example_loads (\<lambda>s. None)
      \<lparr>incoming = [Data (lf_lines [line_input7]), Data (lf_lines [line_input7])],
        sendall_outcomes = []\<rparr> (ascii ''pi'', 55001) False False
   \<and> snd (handle_client example_loads (\<lambda>s. None)
      \<lparr>incoming = [Data (lf_lines [line_input7]), Idle 3600000, Data (lf_lines [line_input7])],
        sendall_outcomes = []\<rparr> (ascii ''pi'', 55001) False False) = None
   \<and> stream_end [Data (lf_lines [line_input7]), Idle 3600000, Data (lf_lines [line_input7])]
       = None"
proof -
  note inst = no_stale_link_timeout [of example_loads "\<lambda>s. None"
      "[Data (lf_lines [line_input7]), Idle 3600000, Data (lf_lines [line_input7])]" "[]"
      "(ascii ''pi'', 55001)" False False]
  have returned: "snd (handle_client example_loads (\<lambda>s. None)
      \<lparr>incoming = [Data (lf_lines [line_input7]), Idle 3600000, Data (lf_lines [line_input7])],
        sendall_outcomes = []\<rparr> (ascii ''pi'', 55001) False False) = None"
    by (simp add: silent_hour_run)
  from inst [THEN conjunct1] inst [THEN conjunct2, THEN mp, OF returned] returned
  show ?thesis
    by simp
qed


text \<open>
  C6 as stated fails: after an hour without a single byte (a heartbeat is due every
  500 ms), the connection is still open and the message that arrives then is handled on
  it like the first one.
\<close>

theorem silent_hour_link_kept:
  "handle_client example_loads (\<lambda>s. None)
      \<lparr>incoming = [Data (lf_lines [line_input7]), Idle 3600000, Data (lf_lines [line_input7])],
        sendall_outcomes = []\<rparr>
      (ascii ''pi'', 55001) False False
    = ([connected_line (peer_of (ascii ''pi'', 55001)),
        Print (projr (build_line (\<lambda>s. None) (JDict msg_input7))),
        Print (projr (build_line (\<lambda>s. None) (JDict msg_input7))),
        disconnected_line (peer_of (ascii ''pi'', 55001))], None)"
  by (rule silent_hour_run)


section \<open>Sender: one iteration of the loop\<close>

lemma and_0xFFFFFFFF: "(x :: int) AND 0xFFFFFFFF = x mod 2 ^ 32"
proof -
  have m: "(0xFFFFFFFF :: int) = mask 32"
    by (simp add: mask_eq_exp_minus_1)
  have "x AND mask 32 = x mod 2 ^ 32"
    by (simp only: take_bit_eq_mask [symmetric] take_bit_eq_mod)
  then show ?thesis
    by (simp only: m)
qed

lemma next_seq_eq:
  "next_seq c = ((seq c + 1) mod 2 ^ 32, c\<lparr>seq := (seq c + 1) mod 2 ^ 32\<rparr>)"
  by (simp add: next_seq_def Let_def and_0xFFFFFFFF)

lemma map_of_dict_set: "map_of (dict_set d k v) = (map_of d)(k \<mapsto> v)"
  by (induction d k v rule: dict_set.induct) auto

lemma dict_get_dict_set:
  "dict_get (dict_set d k v) k' dflt = (if k' = k then v else dict_get d k' dflt)"
  by (simp add: dict_get_def map_of_dict_set)

lemma type_of_sample:
  "type_of (JDict (dict_set (read_sample j) (ascii ''seq'') v)) = JStr (ascii ''input'')"
  by (simp add: type_of_def dict_get_dict_set) (simp add: dict_get_def read_sample_def)

lemma seq_of_sample: "seq_of (JDict (dict_set (read_sample j) (ascii ''seq'') v)) = v"
  by (simp add: seq_of_def dict_get_dict_set)

lemma type_of_heartbeat: "type_of (heartbeat_message ts n) = JStr (ascii ''heartbeat'')"
  by (simp add: type_of_def heartbeat_message_def dict_get_def)

lemma seq_of_heartbeat: "seq_of (heartbeat_message ts n) = JInt n"
  by (simp add: seq_of_def heartbeat_message_def dict_get_def)

lemma loop_body_gate:
  assumes "rate_gate en t s"
  shows "sent_objects (fst (loop_body en t s))
           = [JDict (dict_set (read_sample (js t)) (ascii ''seq'')
                       (JInt ((seq (control s) + 1) mod 2 ^ 32)))]"
    and "last_send (snd (loop_body en t s)) = now t"
    and "last_any (snd (loop_body en t s)) = now t"
    and "seq (control (snd (loop_body en t s))) = (seq (control s) + 1) mod 2 ^ 32"
  using assms
  by (simp_all add: rate_gate_def loop_body_def Let_def next_seq_eq split: prod.split)
     (simp_all add: send_json_line_def close_def split: send_outcome.splits)

lemma loop_body_heartbeat:
  assumes "\<not> rate_gate en t s" and "heartbeat_due en t s"
  shows "sent_objects (fst (loop_body en t s))
           = [heartbeat_message (hb_utcnow t) ((seq (control s) + 1) mod 2 ^ 32)]"
    and "last_send (snd (loop_body en t s)) = last_send s"
    and "last_any (snd (loop_body en t s)) = now t"
    and "seq (control (snd (loop_body en t s))) = (seq (control s) + 1) mod 2 ^ 32"
  using assms
  by (simp_all add: rate_gate_def heartbeat_due_def loop_body_def Let_def next_seq_eq
        split: prod.split)
     (auto simp add: send_json_line_def close_def split: send_outcome.splits)

lemma loop_body_quiet:
  assumes "\<not> rate_gate en t s" and "\<not> heartbeat_due en t s"
  shows "loop_body en t s = ([], s)"
  using assms
  by (auto simp add: rate_gate_def heartbeat_due_def loop_body_def Let_def)


text \<open>
  C3. In an iteration whose rate gate holds (control enabled, connected, at least
  \<open>1 / POLL_HZ\<close> seconds since the last send), exactly one message is handed to the
  socket, it is an \<open>input\<close> message (so no heartbeat), and both \<open>last_send\<close> and
  \<open>last_any\<close> become \<open>now\<close>. If a heartbeat is handed to the socket in an iteration,
  then the rate gate did not hold, at least \<open>HEARTBEAT_MS\<close> milliseconds have passed
  since \<open>last_any\<close>, the heartbeat is the only message of the iteration, and it sets
  \<open>last_any\<close> to \<open>now\<close> and leaves \<open>last_send\<close> as it was.
\<close>

theorem input_excludes_heartbeat:
  "(rate_gate en t s \<longrightarrow>
      map type_of (sent_objects (fst (loop_body en t s))) = [JStr (ascii ''input'')]
      \<and> last_send (snd (loop_body en t s)) = now t
      \<and> last_any (snd (loop_body en t s)) = now t)
   \<and> (JStr (ascii ''heartbeat'') \<in> set (map type_of (sent_objects (fst (loop_body en t s)))) \<longrightarrow>
      \<not> rate_gate en t s
      \<and> (now t - last_any s) * 1000 \<ge> HEARTBEAT_MS
      \<and> map type_of (sent_objects (fst (loop_body en t s))) = [JStr (ascii ''heartbeat'')]
      \<and> last_any (snd (loop_body en t s)) = now t
      \<and> last_send (snd (loop_body en t s)) = last_send s)"
proof (cases "rate_gate en t s")
  case True
  then show ?thesis
    by (simp add: loop_body_gate type_of_sample)
next
  case gate: False
  show ?thesis
  proof (cases "heartbeat_due en t s")
    case True
    with gate show ?thesis
      by (simp add: loop_body_heartbeat type_of_heartbeat) (simp add: heartbeat_due_def)
  next
    case False
    with gate show ?thesis
      by (simp add: loop_body_quiet)
  qed
qed

lemma loop_body_example_heartbeat:
  "sent_objects (fst (loop_body True (example_tick (1001 / 100) Send_ok) (example_sender 10 9)))
     = [heartbeat_message (ascii ''2024-01-01T00:00:01+00:00'') 1]"
  by (simp add: loop_body_def Let_def example_tick_def example_sender_def ControlClient_def
      next_seq_eq send_json_line_def POLL_HZ_def HEARTBEAT_MS_def)

theorem input_excludes_heartbeat_witness:
  "rate_gate True (example_tick 6 Send_ok) (example_sender 0 5)
   \<and> map type_of (sent_objects (fst (loop_body True (example_tick 6 Send_ok) (example_sender 0 5))))
       = [JStr (ascii ''input'')]
   \<and> last_send (snd (loop_body True (example_tick 6 Send_ok) (example_sender 0 5))) = 6
   \<and> last_any (snd (loop_body True (example_tick 6 Send_ok) (example_sender 0 5))) = 6
   \<and> JStr (ascii ''heartbeat'')
        \<in> set (map type_of (sent_objects
              (fst (loop_body True (example_tick (1001 / 100) Send_ok) (example_sender 10 9)))))
   \<and> \<not> rate_gate True (example_tick (1001 / 100) Send_ok) (example_sender 10 9)
   \<and> last_any (snd (loop_body True (example_tick (1001 / 100) Send_ok) (example_sender 10 9)))
       = 1001 / 100
   \<and> last_send (snd (loop_body True (example_tick (1001 / 100) Send_ok) (example_sender 10 9)))
       = 10"
proof -
  have g: "rate_gate True (example_tick 6 Send_ok) (example_sender 0 5)"
    by (simp add: rate_gate_def example_tick_def example_sender_def POLL_HZ_def)
  have h: "JStr (ascii ''heartbeat'')
        \<in> set (map type_of (sent_objects
              (fst (loop_body True (example_tick (1001 / 100) Send_ok) (example_sender 10 9)))))"
    by (simp add: loop_body_example_heartbeat type_of_heartbeat)
  show ?thesis
    using g h
      input_excludes_heartbeat [of True "example_tick 6 Send_ok" "example_sender 0 5"]
      input_excludes_heartbeat [of True "example_tick (1001 / 100) Send_ok" "example_sender 10 9"]
    by (simp add: example_tick_def example_sender_def)
qed


text \<open>
  A remark on reachability: \<open>last_send \<le> last_any\<close> holds from the start of \<open>run\<close>
  (0 and the clock's value) and is kept by every iteration, and under it the \<open>else\<close>
  branch never finds the link idle for 500 ms. So along a run no heartbeat is sent.
\<close>

lemma loop_body_no_heartbeat:
  assumes "last_send s \<le> last_any s"
  shows "last_send (snd (loop_body en t s)) \<le> last_any (snd (loop_body en t s))
       \<and> JStr (ascii ''heartbeat'')
            \<notin> set (map type_of (sent_objects (fst (loop_body en t s))))"
proof (cases "rate_gate en t s")
  case True
  then show ?thesis
    by (simp add: loop_body_gate type_of_sample)
next
  case gate: False
  have "\<not> heartbeat_due en t s"
  proof
    assume due: "heartbeat_due en t s"
    then have "now t - last_send s < 1 / 60"
      using gate by (simp add: rate_gate_def heartbeat_due_def POLL_HZ_def)
    moreover have "1 / 2 \<le> now t - last_any s"
      using due by (simp add: heartbeat_due_def HEARTBEAT_MS_def)
    ultimately show False
      using assms by simp
  qed
  with gate show ?thesis
    using assms by (simp add: loop_body_quiet)
qed

lemma heartbeat_never_sent:
  "last_send s \<le> last_any s \<Longrightarrow>
   JStr (ascii ''heartbeat'')
     \<notin> set (map type_of (sent_objects (fst (run_loop en ticks s))))"
proof (induction ticks arbitrary: s)
  case Nil
  show ?case by simp
next
  case (Cons t ticks)
  obtain evs s1 where lb: "loop_body en t s = (evs, s1)"
    by (cases "loop_body en t s")
  have "last_send s1 \<le> last_any s1"
    and "JStr (ascii ''heartbeat'') \<notin> set (map type_of (sent_objects evs))"
    using loop_body_no_heartbeat [OF Cons.prems, of en t] lb by simp_all
  then show ?case
    using Cons.IH [of s1] lb by (auto simp add: sent_objects_append split: prod.split)
qed


section \<open>Sender: sequence numbers\<close>

lemma loop_body_cases:
  "(rate_gate en t s \<or> heartbeat_due en t s) \<and>
     length (sent_objects (fst (loop_body en t s))) = 1 \<and>
     map seq_of (sent_objects (fst (loop_body en t s)))
       = [JInt ((seq (control s) + 1) mod 2 ^ 32)] \<and>
     seq (control (snd (loop_body en t s))) = (seq (control s) + 1) mod 2 ^ 32
   \<or> loop_body en t s = ([], s)"
proof (cases "rate_gate en t s")
  case True
  then show ?thesis
    by (simp add: loop_body_gate seq_of_sample)
next
  case gate: False
  show ?thesis
  proof (cases "heartbeat_due en t s")
    case True
    with gate show ?thesis
      by (simp add: loop_body_heartbeat seq_of_heartbeat)
  next
    case False
    with gate show ?thesis
      by (simp add: loop_body_quiet)
  qed
qed

lemma run_loop_seqs:
  "map seq_of (sent_objects (fst (run_loop en ts s)))
     = map (\<lambda>i. JInt ((seq (control s) + 1 + int i) mod 2 ^ 32))
         [0..<length (sent_objects (fst (run_loop en ts s)))]"
proof (induction ts arbitrary: s)
  case Nil
  show ?case by simp
next
  case (Cons t ts)
  obtain evs s1 where lb: "loop_body en t s = (evs, s1)"
    by (cases "loop_body en t s")
  obtain evs' s2 where rl: "run_loop en ts s1 = (evs', s2)"
    by (cases "run_loop en ts s1")
  have ih: "map seq_of (sent_objects evs')
     = map (\<lambda>i. JInt ((seq (control s1) + 1 + int i) mod 2 ^ 32))
         [0..<length (sent_objects evs')]"
    using Cons.IH [of s1] rl by simp
  consider (emit) "length (sent_objects evs) = 1"
      "map seq_of (sent_objects evs) = [JInt ((seq (control s) + 1) mod 2 ^ 32)]"
      "seq (control s1) = (seq (control s) + 1) mod 2 ^ 32"
    | (quiet) "evs = []" "s1 = s"
    using loop_body_cases [of en t s] lb by auto
  then show ?case
  proof cases
    case emit
    have shift: "((seq (control s) + 1) mod 2 ^ 32 + 1 + int i) mod 2 ^ 32
        = (seq (control s) + 1 + int (Suc i)) mod (2 ^ 32 :: int)" for i
      using mod_add_left_eq [of "seq (control s) + 1" "2 ^ 32" "1 + int i"]
      by (simp add: algebra_simps)
    have ih': "map seq_of (sent_objects evs')
        = map (\<lambda>i. JInt ((seq (control s) + 1 + int (Suc i)) mod 2 ^ 32))
                [0..<length (sent_objects evs')]"
      using ih unfolding emit(3) shift .
    have "map seq_of (sent_objects (evs @ evs'))
        = JInt ((seq (control s) + 1) mod 2 ^ 32)
            # map (\<lambda>i. JInt ((seq (control s) + 1 + int (Suc i)) mod 2 ^ 32))
                [0..<length (sent_objects evs')]"
      using emit(2) ih' by (simp only: sent_objects_append map_append append_Cons append_Nil)
    also have "\<dots> = map (\<lambda>i. JInt ((seq (control s) + 1 + int i) mod 2 ^ 32))
                [0..<Suc (length (sent_objects evs'))]"
      by (simp add: upt_rec [of 0 "Suc _"] map_Suc_upt [symmetric] del: upt_Suc)
    finally show ?thesis
      using lb rl emit by (simp add: sent_objects_append)
  next
    case quiet
    then show ?thesis
      using lb rl ih by simp
  qed
qed


text \<open>
  C4. The counter of a new client is 0, and in a run of the sender the \<open>k\<close>-th message
  handed to the socket (counting from 0; inputs and heartbeats alike) carries the
  \<open>seq\<close> \<open>(k + 1) mod 2^32\<close>: each is the one before plus one modulo \<open>2^32\<close>, so there
  is no gap, and two messages less than \<open>2^32\<close> apart never carry the same \<open>seq\<close>.
\<close>

theorem seq_counts_every_message:
  "seq (ControlClient h p) = 0
   \<and> map seq_of (sent_objects (fst (run h p en ok t0 ticks)))
       = map (\<lambda>i. JInt ((int i + 1) mod 2 ^ 32))
           [0..<length (sent_objects (fst (run h p en ok t0 ticks)))]
   \<and> (\<forall>i j. i < j \<and> j < length (sent_objects (fst (run h p en ok t0 ticks)))
          \<and> j - i < 2 ^ 32 \<longrightarrow>
        seq_of (sent_objects (fst (run h p en ok t0 ticks)) ! i)
          \<noteq> seq_of (sent_objects (fst (run h p en ok t0 ticks)) ! j))"
proof -
  let ?sent = "sent_objects (fst (run h p en ok t0 ticks))"
  have start: "seq (ControlClient h p) = 0"
    by (simp add: ControlClient_def)
  define c where "c = (if en then connect ok (ControlClient h p) else ControlClient h p)"
  have c0: "seq c = 0"
    by (simp add: c_def connect_def ControlClient_def)
  have r: "run h p en ok t0 ticks
      = run_loop en ticks \<lparr>control = c, last_send = 0, last_any = t0\<rparr>"
    by (simp add: run_def Let_def c_def)
  have seqs: "map seq_of ?sent = map (\<lambda>i. JInt ((int i + 1) mod 2 ^ 32)) [0..<length ?sent]"
    using run_loop_seqs [of en ticks "\<lparr>control = c, last_send = 0, last_any = t0\<rparr>"] c0
    unfolding r by (simp add: add.commute)
  have nth: "seq_of (?sent ! k) = JInt ((int k + 1) mod 2 ^ 32)" if "k < length ?sent" for k
  proof -
    have "map seq_of ?sent ! k = map (\<lambda>i. JInt ((int i + 1) mod 2 ^ 32)) [0..<length ?sent] ! k"
      by (simp only: seqs)
    then show ?thesis
      using that by simp
  qed
  have distinct: "seq_of (?sent ! i) \<noteq> seq_of (?sent ! j)"
    if "i < j" and "j < length ?sent" and "j - i < 2 ^ 32" for i j
  proof
    assume "seq_of (?sent ! i) = seq_of (?sent ! j)"
    then have "(int i + 1) mod 2 ^ 32 = (int j + 1) mod (2 ^ 32 :: int)"
      using nth [of i] nth [of j] that by simp
    then have "(2 ^ 32 :: int) dvd (int j + 1) - (int i + 1)"
      by (simp add: mod_eq_dvd_iff dvd_diff_commute)
    then have "(2 ^ 32 :: int) dvd int (j - i)"
      using that(1) by (simp add: of_nat_diff)
    then have "(2 ^ 32 :: int) \<le> int (j - i)"
      using that(1) by (intro zdvd_imp_le) simp_all
    then show False
      using that(3) by simp
  qed
  from start seqs distinct show ?thesis
    by blast
qed

theorem seq_counts_every_message_witness:
  "map seq_of (sent_objects (fst (run (ascii ''192.168.1.2'') 55001 True True 0
      [example_tick 1 Send_ok, example_tick (1001 / 1000) Send_ok, example_tick 2 Send_ok])))
    = [JInt 1, JInt 2]
   \<and> seq_of (sent_objects (fst (run (ascii ''192.168.1.2'') 55001 True True 0
      [example_tick 1 Send_ok, example_tick (1001 / 1000) Send_ok, example_tick 2 Send_ok])) ! 0)
     \<noteq> seq_of (sent_objects (fst (run (ascii ''192.168.1.2'') 55001 True True 0
      [example_tick 1 Send_ok, example_tick (1001 / 1000) Send_ok, example_tick 2 Send_ok])) ! 1)"
proof -
  let ?sent = "sent_objects (fst (run (ascii ''192.168.1.2'') 55001 True True 0
      [example_tick 1 Send_ok, example_tick (1001 / 1000) Send_ok, example_tick 2 Send_ok]))"
  have len: "length ?sent = 2"
    by (simp add: run_def Let_def connect_def ControlClient_def example_tick_def loop_body_def
        next_seq_eq send_json_line_def POLL_HZ_def HEARTBEAT_MS_def)
  have upt: "[0..<2] = [0, 1]"
    by (simp add: upt_rec)
  note inst = seq_counts_every_message [of "ascii ''192.168.1.2''" 55001 True True 0
      "[example_tick 1 Send_ok, example_tick (1001 / 1000) Send_ok, example_tick 2 Send_ok]"]
  have "map seq_of ?sent = [JInt 1, JInt 2]"
    using inst len upt by simp
  moreover have "seq_of (?sent ! 0) \<noteq> seq_of (?sent ! 1)"
    using inst len by simp
  ultimately show ?thesis
    by simp
qed


section \<open>Sender: after a failure\<close>

lemma run_loop_disconnected: "\<not> sock (control s) \<Longrightarrow> run_loop en ticks s = ([], s)"
  by (induction ticks) (simp_all add: loop_body_def Let_def)


text \<open>
  C5, as the code has it. There is no backoff loop and no second \<open>connect\<close>: a send
  that fails closes the client, a failed \<open>connect\<close> leaves it without a socket, and a
  client without a socket sends nothing and stays as it is for the rest of the run.
\<close>

theorem disconnected_sender_stays_silent:
  "(\<not> sock (control s) \<longrightarrow> run_loop en ticks s = ([], s))
   \<and> (Send_all obj (Send_fails e) \<in> set (fst (loop_body en t s)) \<longrightarrow>
        \<not> sock (control (snd (loop_body en t s))))
   \<and> run h p en False t0 ticks
       = ([], \<lparr>control = ControlClient h p, last_send = 0, last_any = t0\<rparr>)"
proof (intro conjI impI)
  assume "\<not> sock (control s)"
  then show "run_loop en ticks s = ([], s)"
    by (rule run_loop_disconnected)
next
  assume "Send_all obj (Send_fails e) \<in> set (fst (loop_body en t s))"
  then show "\<not> sock (control (snd (loop_body en t s)))"
    by (auto simp add: loop_body_def Let_def next_seq_def send_json_line_def close_def
        split: if_splits prod.splits send_outcome.splits)
next
  show "run h p en False t0 ticks
       = ([], \<lparr>control = ControlClient h p, last_send = 0, last_any = t0\<rparr>)"
    by (simp add: run_def Let_def connect_def ControlClient_def run_loop_disconnected)
qed

theorem disconnected_sender_stays_silent_witness:
  "run_loop True [example_tick 2 Send_ok, example_tick 100 Send_ok]
      \<lparr>control = ControlClient (ascii ''192.168.1.2'') 55001, last_send = 1, last_any = 1\<rparr>
     = ([], \<lparr>control = ControlClient (ascii ''192.168.1.2'') 55001, last_send = 1, last_any = 1\<rparr>)
   \<and> \<not> sock (control (snd (loop_body True (example_tick 1 (Send_fails (ascii ''Broken pipe'')))
              (example_sender 0 0))))"
proof -
  have f: "Send_all (JDict (dict_set (read_sample js0) (ascii ''seq'') (JInt 1)))
             (Send_fails (ascii ''Broken pipe''))
           \<in> set (fst (loop_body True (example_tick 1 (Send_fails (ascii ''Broken pipe'')))
                 (example_sender 0 0)))"
    by (simp add: loop_body_def Let_def example_tick_def example_sender_def ControlClient_def
        next_seq_eq send_json_line_def close_def POLL_HZ_def)
  have d: "\<not> sock (control \<lparr>control = ControlClient (ascii ''192.168.1.2'') 55001,
             last_send = 1, last_any = 1\<rparr>)"
    by (simp add: ControlClient_def)
  from disconnected_sender_stays_silent
    [where s = "\<lparr>control = ControlClient (ascii ''192.168.1.2'') 55001, last_send = 1,
        last_any = 1\<rparr>"
      and en = True and ticks = "[example_tick 2 Send_ok, example_tick 100 Send_ok]"]
    disconnected_sender_stays_silent
    [where s = "example_sender 0 0" and en = True
      and obj = "JDict (dict_set (read_sample js0) (ascii ''seq'') (JInt 1))"
      and e = "ascii ''Broken pipe''"
      and t = "example_tick 1 (Send_fails (ascii ''Broken pipe''))"]
    f d
  show ?thesis
    by blast
qed


text \<open>
  C5 as stated fails: the first send of a connected sender fails; the next iterations,
  one second and 99 seconds later, in which a send would succeed, send nothing, and the
  client is still without a socket at the end.
\<close>

theorem send_failure_never_recovers:
  "run (ascii ''192.168.1.2'') 55001 True True 0
      [example_tick 1 (Send_fails (ascii ''Broken pipe'')), example_tick 2 Send_ok,
       example_tick 100 Send_ok]
    = ([Send_all (JDict (dict_set (read_sample js0) (ascii ''seq'') (JInt 1)))
          (Send_fails (ascii ''Broken pipe''))],
       \<lparr>control = (ControlClient (ascii ''192.168.1.2'') 55001)\<lparr>seq := 1\<rparr>,
        last_send = 1, last_any = 1\<rparr>)"
  by (simp add: run_def Let_def connect_def ControlClient_def example_tick_def loop_body_def
      next_seq_eq send_json_line_def close_def POLL_HZ_def)


end
